theory Spec2Isabelle
  imports Main "HOL-Library.Word" "HOL-Library.Sublist"
begin

section \<open>Proxy-group resolution (adapter/outboundgroup/parser.go)\<close>

text \<open>
  A shallow embedding of \<^verbatim>\<open>ParseProxyGroup\<close>, \<^verbatim>\<open>getProxies\<close>, \<^verbatim>\<open>getProviders\<close> and
  \<^verbatim>\<open>newHealthCheck\<close>. Go errors are values of the type \<open>error\<close>; a function returning
  \<^verbatim>\<open>(T, error)\<close> returns \<open>error + T\<close>. The provider registry \<^verbatim>\<open>providersMap\<close> is a Go map
  that the function mutates in place, and its values are pointers to provider objects, one
  of which (\<^verbatim>\<open>pp.RegisterProvidersInUse(fp)\<close>) is mutated through the pointer: the model
  threads a state holding the map and a store of provider objects.
\<close>

subsection \<open>Errors\<close>

text \<open>
  \<open>ErrNew s\<close> is \<^verbatim>\<open>errors.New(s)\<close>; \<open>Errorf s\<close> is \<^verbatim>\<open>fmt.Errorf\<close> without \<^verbatim>\<open>%w\<close>, already
  formatted to \<open>s\<close>; \<open>Wrapf s e\<close> is \<^verbatim>\<open>fmt.Errorf\<close> with \<^verbatim>\<open>%w\<close> applied to \<open>e\<close>, formatted to
  \<open>s\<close>; \<open>Foreign s\<close> is an error value made by a collaborator outside this file (the regexp
  package, the provider package, the load-balance constructor), with message \<open>s\<close>.
\<close>

datatype error = ErrNew string | Errorf string | Wrapf string error | Foreign string

fun Error :: "error \<Rightarrow> string" where
  "Error (ErrNew s) = s"
| "Error (Errorf s) = s"
| "Error (Wrapf s e) = s"
| "Error (Foreign s) = s"

text \<open>\<^verbatim>\<open>errors.Is\<close>: the target is found along the chain of wrapped errors.\<close>

fun errors_Is :: "error \<Rightarrow> error \<Rightarrow> bool" where
  "errors_Is (Wrapf s e) target = (Wrapf s e = target \<or> errors_Is e target)"
| "errors_Is e target = (e = target)"

definition errFormat :: error where
  "errFormat = ErrNew ''format error''"

definition errType :: error where
  "errType = ErrNew ''unsupported type''"

definition errMissProxy :: error where
  "errMissProxy = ErrNew ''`use` or `proxies` missing''"

definition errMissHealthCheck :: error where
  "errMissHealthCheck = ErrNew ''`url` or `interval` missing''"

definition errDuplicateProvider :: error where
  "errDuplicateProvider = ErrNew ''duplicate provider name''"

text \<open>\<^verbatim>\<open>fmt.Errorf("%s: %w", groupName, err)\<close>\<close>

definition wrapName :: "string \<Rightarrow> error \<Rightarrow> error" where
  "wrapName groupName err = Wrapf (groupName @ '': '' @ Error err) err"

text \<open>\<^verbatim>\<open>fmt.Errorf("'%s' not found", name)\<close>\<close>

definition errNotFound :: "string \<Rightarrow> error" where
  "errNotFound name = Errorf (CHR 0x27 # name @ CHR 0x27 # '' not found'')"

text \<open>\<^verbatim>\<open>fmt.Errorf("proxy group %s can't contains in `use`", name)\<close>\<close>

definition errCantContain :: "string \<Rightarrow> error" where
  "errCantContain name =
     Errorf (''proxy group '' @ name @ '' can'' @ CHR 0x27 # ''t contains in `use`'')"

subsection \<open>Data\<close>

text \<open>
  \<^verbatim>\<open>GroupCommonOption\<close>, without the embedded \<^verbatim>\<open>outbound.BasicOption\<close>, which this file
  never reads. \<^verbatim>\<open>Interval\<close> is a Go \<^verbatim>\<open>int\<close>, 64 bits wide; \<^verbatim>\<open>uint(Interval)\<close> keeps the bits.
\<close>

record GroupCommonOption =
  Name :: string
  Type :: string
  Proxies :: "string list"
  Use :: "string list"
  URL :: string
  Interval :: "64 word"
  Lazy :: bool
  DisableUDP :: bool
  DisableDNS :: bool
  Filter :: string

text \<open>\<^verbatim>\<open>&GroupCommonOption{Lazy: true}\<close>: every other field has Go's zero value.\<close>

definition initOption :: GroupCommonOption where
  "initOption = \<lparr> Name = [], Type = [], Proxies = [], Use = [], URL = [], Interval = 0,
     Lazy = True, DisableUDP = False, DisableDNS = False, Filter = [] \<rparr>"

text \<open>A \<^verbatim>\<open>C.Proxy\<close> is a handle of an endpoint, owned by the caller.\<close>

datatype proxy = ProxyHandle nat

text \<open>
  Modelled from the spec: \<^verbatim>\<open>provider.HealthCheck\<close> and \<^verbatim>\<open>provider.NewHealthCheck\<close> are not
  in this file. The policy "owns: target probe URL (empty means disabled), interval,
  laziness flag, and the set of endpoints it evaluates": the record holds what
  \<^verbatim>\<open>NewHealthCheck(proxies, url, interval, lazy)\<close> is given.
\<close>

record HealthCheck =
  hc_proxies :: "proxy list"
  hc_url :: string
  hc_interval :: "64 word"
  hc_lazy :: bool

definition NewHealthCheck :: "proxy list \<Rightarrow> string \<Rightarrow> 64 word \<Rightarrow> bool \<Rightarrow> HealthCheck" where
  "NewHealthCheck ps url interval lazy =
     \<lparr> hc_proxies = ps, hc_url = url, hc_interval = interval, hc_lazy = lazy \<rparr>"

text \<open>A compiled \<^verbatim>\<open>*regexp.Regexp\<close>, kept as the pattern it was compiled from.\<close>

datatype regexp = Regexp string

text \<open>
  Modelled from the spec: the provider types of the package \<^verbatim>\<open>provider\<close> are not in this
  file. Provider objects live in a store and are referred to by their address, as the Go
  code holds them by pointer. The three kinds this file sees:
  \<^item> \<open>CompatibleProvider name proxies hc\<close>, what \<^verbatim>\<open>provider.NewCompatibleProvider\<close> builds
    (the synthetic provider of a group's inline endpoints);
  \<^item> \<open>ProxySetProvider name inUse\<close>, the dynamic pool; \<open>inUse\<close> are its dependents;
  \<^item> \<open>ProxyFilterProvider name parent hc filter\<close>, what \<^verbatim>\<open>provider.NewProxyFilterProvider\<close>
    builds (the derived provider).
\<close>

type_synonym ref = nat

datatype provider =
    CompatibleProvider string "proxy list" HealthCheck
  | ProxySetProvider string "ref list"
  | ProxyFilterProvider string ref HealthCheck "regexp option"

text \<open>
  The state: the registry \<^verbatim>\<open>providersMap\<close> (name to pointer) and the store of provider
  objects. A new object takes the next free address.
\<close>

record state =
  providersMap :: "string \<rightharpoonup> ref"
  heap :: "provider list"

definition deref :: "provider list \<Rightarrow> ref \<Rightarrow> provider option" where
  "deref h p = (if p < length h then Some (h ! p) else None)"

text \<open>
  The type assertion \<^verbatim>\<open>p.(*provider.ProxySetProvider)\<close>: it holds on a pointer to a
  dynamic pool only (a nil interface value fails it too).
\<close>

definition asProxySetProvider :: "provider list \<Rightarrow> ref \<Rightarrow> (string \<times> ref list) option" where
  "asProxySetProvider h p =
     (case deref h p of
        Some (ProxySetProvider n inUse) \<Rightarrow> Some (n, inUse)
      | Some (CompatibleProvider n ps hc) \<Rightarrow> None
      | Some (ProxyFilterProvider n parent hc rx) \<Rightarrow> None
      | None \<Rightarrow> None)"

text \<open>
  Modelled from the spec: \<^verbatim>\<open>pp.RegisterProvidersInUse(fp)\<close> is not in this file. The spec
  has it "register the derived provider as a dependent of its source provider": the pool at
  address \<open>p\<close> gets \<open>fp\<close> appended to its dependents.
\<close>

definition RegisterProvidersInUse :: "provider list \<Rightarrow> ref \<Rightarrow> ref \<Rightarrow> provider list" where
  "RegisterProvidersInUse h p fp =
     (case asProxySetProvider h p of
        Some (n, inUse) \<Rightarrow> h[p := ProxySetProvider n (inUse @ [fp])]
      | None \<Rightarrow> h)"

text \<open>
  Modelled from the spec: the constructors of the five group adapters are not in this file.
  Each adapter "holds an ordered sequence of providers" and its strategy's own parameter:
  the value holds what the constructor is given.
\<close>

datatype 'uo adapter =
    URLTest GroupCommonOption "ref list" 'uo
  | Selector GroupCommonOption "ref list"
  | Fallback GroupCommonOption "ref list"
  | LoadBalance GroupCommonOption "ref list" string
  | Relay GroupCommonOption "ref list"

fun adapter_providers :: "'uo adapter \<Rightarrow> ref list" where
  "adapter_providers (URLTest opt ps uo) = ps"
| "adapter_providers (Selector opt ps) = ps"
| "adapter_providers (Fallback opt ps) = ps"
| "adapter_providers (LoadBalance opt ps s) = ps"
| "adapter_providers (Relay opt ps) = ps"

text \<open>
  The collaborators outside this file, taken as parameters:
  \<^item> \<open>Decode config init\<close>: \<^verbatim>\<open>decoder.Decode(config, groupOption)\<close>, \<open>None\<close> when it fails;
  \<^item> \<open>regexp_Compile pattern\<close>: the message of the error of \<^verbatim>\<open>regexp.Compile\<close>, \<open>None\<close>
    when the pattern compiles;
  \<^item> \<open>NewCompatibleProvider_err name ps hc\<close>: the message of the error of
    \<^verbatim>\<open>provider.NewCompatibleProvider\<close>, \<open>None\<close> when it builds the provider;
  \<^item> \<open>parseURLTestOption config\<close> and \<open>parseStrategy config\<close>;
  \<^item> \<open>NewLoadBalance_err opt providers strategy\<close>: the message of the error of
    \<^verbatim>\<open>NewLoadBalance\<close>, \<open>None\<close> when it builds the adapter.
\<close>

record ('cfg, 'uo) env =
  Decode :: "'cfg \<Rightarrow> GroupCommonOption \<Rightarrow> GroupCommonOption option"
  regexp_Compile :: "string \<Rightarrow> string option"
  NewCompatibleProvider_err :: "string \<Rightarrow> proxy list \<Rightarrow> HealthCheck \<Rightarrow> string option"
  parseURLTestOption :: "'cfg \<Rightarrow> 'uo"
  parseStrategy :: "'cfg \<Rightarrow> string"
  NewLoadBalance_err :: "GroupCommonOption \<Rightarrow> ref list \<Rightarrow> string \<Rightarrow> string option"

subsection \<open>newHealthCheck\<close>

definition newHealthCheck :: "proxy list \<Rightarrow> GroupCommonOption \<Rightarrow> error + HealthCheck" where
  "newHealthCheck ps groupOption =
     (if Type groupOption = ''select'' \<or> Type groupOption = ''relay''
      then Inr (NewHealthCheck ps [] 0 True)
      else if URL groupOption = [] \<or> Interval groupOption = 0
      then Inl errMissHealthCheck
      else Inr (NewHealthCheck ps (URL groupOption) (Interval groupOption) (Lazy groupOption)))"

subsection \<open>getProxies\<close>

text \<open>The loop of \<^verbatim>\<open>getProxies\<close>, with \<open>ps\<close> the handles appended so far.\<close>

fun getProxies_loop :: "(string \<rightharpoonup> proxy) \<Rightarrow> string list \<Rightarrow> proxy list \<Rightarrow> error + proxy list" where
  "getProxies_loop mapping [] ps = Inr ps"
| "getProxies_loop mapping (name # list) ps =
     (case mapping name of
        None \<Rightarrow> Inl (errNotFound name)
      | Some p \<Rightarrow> getProxies_loop mapping list (ps @ [p]))"

definition getProxies :: "(string \<rightharpoonup> proxy) \<Rightarrow> string list \<Rightarrow> error + proxy list" where
  "getProxies mapping list = getProxies_loop mapping list []"

subsection \<open>getProviders\<close>

text \<open>
  The loop of \<^verbatim>\<open>getProviders\<close> over \<^verbatim>\<open>groupOption.Use\<close>, with \<open>ps\<close> the derived providers
  appended so far and \<open>h\<close> the store: each round allocates the derived provider and
  registers it with its pool, and a later failure leaves both in the store.
\<close>

fun getProviders_loop ::
  "(string \<rightharpoonup> ref) \<Rightarrow> GroupCommonOption \<Rightarrow> regexp option \<Rightarrow> string list \<Rightarrow> ref list \<Rightarrow>
   provider list \<Rightarrow> (error + ref list) \<times> provider list" where
  "getProviders_loop mapping groupOption filterRegx [] ps h = (Inr ps, h)"
| "getProviders_loop mapping groupOption filterRegx (name # rest) ps h =
     (case mapping name of
        None \<Rightarrow> (Inl (errNotFound name), h)
      | Some p \<Rightarrow>
          (case asProxySetProvider h p of
             None \<Rightarrow> (Inl (errCantContain name), h)
           | Some pp \<Rightarrow>
               (case newHealthCheck [] groupOption of
                  Inl err \<Rightarrow> (Inl err, h)
                | Inr hc \<Rightarrow>
                    (let fpName = name @ ''-in-'' @ Name groupOption;
                         fp = length h;
                         h1 = h @ [ProxyFilterProvider fpName p hc filterRegx];
                         h2 = RegisterProvidersInUse h1 p fp
                     in getProviders_loop mapping groupOption filterRegx rest (ps @ [fp]) h2))))"

definition getProviders ::
  "(string \<rightharpoonup> ref) \<Rightarrow> GroupCommonOption \<Rightarrow> regexp option \<Rightarrow> provider list \<Rightarrow>
   (error + ref list) \<times> provider list" where
  "getProviders mapping groupOption filterRegx h =
     getProviders_loop mapping groupOption filterRegx (Use groupOption) [] h"

subsection \<open>ParseProxyGroup\<close>

text \<open>Lines 61 to 67: the filter pattern, compiled when it is not empty.\<close>

definition compileFilter :: "('cfg, 'uo) env \<Rightarrow> GroupCommonOption \<Rightarrow> error + regexp option" where
  "compileFilter e groupOption =
     (if Filter groupOption \<noteq> [] then
        (case regexp_Compile e (Filter groupOption) of
           Some m \<Rightarrow> Inl (Wrapf (Name groupOption @ '': invalid filter regex: '' @ m) (Foreign m))
         | None \<Rightarrow> Inr (Some (Regexp (Filter groupOption))))
      else Inr None)"

text \<open>
  Lines 75 to 97: the inline endpoints. The result is the list \<^verbatim>\<open>providers\<close> so far; the
  registry is written last, after every check of the block.
\<close>

definition inlineProxies ::
  "('cfg, 'uo) env \<Rightarrow> (string \<rightharpoonup> proxy) \<Rightarrow> GroupCommonOption \<Rightarrow> state \<Rightarrow>
   (error + ref list) \<times> state" where
  "inlineProxies e proxyMap groupOption st =
     (let groupName = Name groupOption in
      if Proxies groupOption \<noteq> [] then
        (case getProxies proxyMap (Proxies groupOption) of
           Inl err \<Rightarrow> (Inl (wrapName groupName err), st)
         | Inr ps \<Rightarrow>
             (case providersMap st groupName of
                Some existing \<Rightarrow> (Inl (wrapName groupName errDuplicateProvider), st)
              | None \<Rightarrow>
                  (case newHealthCheck ps groupOption of
                     Inl err \<Rightarrow> (Inl (wrapName groupName err), st)
                   | Inr hc \<Rightarrow>
                       (case NewCompatibleProvider_err e groupName ps hc of
                          Some m \<Rightarrow> (Inl (wrapName groupName (Foreign m)), st)
                        | None \<Rightarrow>
                            (let pd = length (heap st) in
                             (Inr [pd],
                              st\<lparr> heap := heap st @ [CompatibleProvider groupName ps hc],
                                  providersMap := (providersMap st)(groupName \<mapsto> pd) \<rparr>))))))
      else (Inr [], st))"

text \<open>Lines 99 to 110: the \<^verbatim>\<open>use\<close> references, merged with the providers so far.\<close>

definition useProviders ::
  "GroupCommonOption \<Rightarrow> regexp option \<Rightarrow> ref list \<Rightarrow> state \<Rightarrow> (error + ref list) \<times> state" where
  "useProviders groupOption filterRegx providers st =
     (if Use groupOption \<noteq> [] then
        (case getProviders (providersMap st) groupOption filterRegx (heap st) of
           (Inl err, h) \<Rightarrow> (Inl (wrapName (Name groupOption) err), st\<lparr> heap := h \<rparr>)
         | (Inr list, h) \<Rightarrow>
             (Inr (if Type groupOption = ''fallback'' then list @ providers
                   else providers @ list),
              st\<lparr> heap := h \<rparr>))
      else (Inr providers, st))"

text \<open>Lines 112 to 130: the switch on the strategy kind.\<close>

definition dispatch ::
  "('cfg, 'uo) env \<Rightarrow> 'cfg \<Rightarrow> GroupCommonOption \<Rightarrow> ref list \<Rightarrow> error + 'uo adapter" where
  "dispatch e config groupOption providers =
     (if Type groupOption = ''url-test'' then
        Inr (URLTest groupOption providers (parseURLTestOption e config))
      else if Type groupOption = ''select'' then Inr (Selector groupOption providers)
      else if Type groupOption = ''fallback'' then Inr (Fallback groupOption providers)
      else if Type groupOption = ''load-balance'' then
        (let strategy = parseStrategy e config in
         case NewLoadBalance_err e groupOption providers strategy of
           Some m \<Rightarrow> Inl (Foreign m)
         | None \<Rightarrow> Inr (LoadBalance groupOption providers strategy))
      else if Type groupOption = ''relay'' then Inr (Relay groupOption providers)
      else Inl (Wrapf (Name groupOption @ '' '' @ Error errType @ '': '' @ Type groupOption)
                  errType))"

definition ParseProxyGroup ::
  "('cfg, 'uo) env \<Rightarrow> 'cfg \<Rightarrow> (string \<rightharpoonup> proxy) \<Rightarrow> state \<Rightarrow> (error + 'uo adapter) \<times> state" where
  "ParseProxyGroup e config proxyMap st =
     (case Decode e config initOption of
        None \<Rightarrow> (Inl errFormat, st)
      | Some groupOption \<Rightarrow>
          if Type groupOption = [] \<or> Name groupOption = [] then (Inl errFormat, st)
          else
            (case compileFilter e groupOption of
               Inl err \<Rightarrow> (Inl err, st)
             | Inr filterRegx \<Rightarrow>
                 if Proxies groupOption = [] \<and> Use groupOption = []
                 then (Inl (wrapName (Name groupOption) errMissProxy), st)
                 else
                   (case inlineProxies e proxyMap groupOption st of
                      (Inl err, st1) \<Rightarrow> (Inl err, st1)
                    | (Inr providers, st1) \<Rightarrow>
                        (case useProviders groupOption filterRegx providers st1 of
                           (Inl err, st2) \<Rightarrow> (Inl err, st2)
                         | (Inr providers2, st2) \<Rightarrow>
                             (dispatch e config groupOption providers2, st2)))))"

subsection \<open>A sample of the collaborators\<close>

text \<open>
  For the concrete runs below: the configuration record is given in its decoded form, the
  pattern \<^verbatim>\<open>(\<close> does not compile, the synthetic provider needs one endpoint at least, and
  the load-balance constructor knows two strategies.
\<close>

definition sampleEnv :: "(GroupCommonOption, unit) env" where
  "sampleEnv = \<lparr>
     Decode = (\<lambda>config init. Some config),
     regexp_Compile = (\<lambda>pattern. if pattern = ''(''
        then Some ''error parsing regexp: missing closing ): `(`'' else None),
     NewCompatibleProvider_err = (\<lambda>name ps hc. if ps = []
        then Some ''provider need one proxy at least'' else None),
     parseURLTestOption = (\<lambda>config. ()),
     parseStrategy = (\<lambda>config. ''consistent-hashing''),
     NewLoadBalance_err = (\<lambda>opt ps strategy.
        if strategy = ''consistent-hashing'' \<or> strategy = ''round-robin'' then None
        else Some (''unsupported strategy: '' @ strategy)) \<rparr>"

text \<open>A group description with the given name, kind, endpoints and references.\<close>

definition sampleOption :: "string \<Rightarrow> string \<Rightarrow> string list \<Rightarrow> string list \<Rightarrow> GroupCommonOption" where
  "sampleOption name type proxies use =
     initOption\<lparr> Name := name, Type := type, Proxies := proxies, Use := use \<rparr>"

text \<open>The same, with a probe URL and an interval.\<close>

definition sampleProbed :: "string \<Rightarrow> string \<Rightarrow> string list \<Rightarrow> string list \<Rightarrow> GroupCommonOption" where
  "sampleProbed name type proxies use =
     (sampleOption name type proxies use)\<lparr> URL := ''http://probe'', Interval := 300 \<rparr>"

text \<open>
  Two endpoints \<open>A\<close> and \<open>B\<close>; a registry with one dynamic pool \<open>P\<close> and the synthetic
  provider of an earlier group \<open>G\<close>.
\<close>

definition sampleProxies :: "string \<rightharpoonup> proxy" where
  "sampleProxies = [''A'' \<mapsto> ProxyHandle 0, ''B'' \<mapsto> ProxyHandle 1]"

definition sampleState :: state where
  "sampleState = \<lparr>
     providersMap = [''P'' \<mapsto> 0, ''G'' \<mapsto> 1],
     heap = [ProxySetProvider ''P'' [],
             CompatibleProvider ''G'' [ProxyHandle 0] (NewHealthCheck [ProxyHandle 0] [] 0 True)] \<rparr>"

subsection \<open>Notions the properties are stated with\<close>

text \<open>The name resolves, in the registry, to a dynamic pool of the store.\<close>

definition resolvesToPool :: "(string \<rightharpoonup> ref) \<Rightarrow> provider list \<Rightarrow> string \<Rightarrow> bool" where
  "resolvesToPool mapping h name =
     (case mapping name of None \<Rightarrow> False | Some p \<Rightarrow> asProxySetProvider h p \<noteq> None)"

text \<open>
  The store \<open>h'\<close> comes from \<open>h\<close> by allocating objects that are no pools and by giving
  pools more dependents: the pools stay where they are, under their names, and every other
  object of \<open>h\<close> is as it was.
\<close>

definition grown :: "provider list \<Rightarrow> provider list \<Rightarrow> bool" where
  "grown h h' \<longleftrightarrow>
     length h \<le> length h' \<and>
     (\<forall>r. case asProxySetProvider h r of
            Some (n, u) \<Rightarrow> (\<exists>u'. asProxySetProvider h' r = Some (n, u @ u'))
          | None \<Rightarrow> asProxySetProvider h' r = None \<and> (r < length h \<longrightarrow> h' ! r = h ! r))"


text \<open>The policy a provider object holds, and the disabled policy.\<close>

fun provider_hc :: "provider \<Rightarrow> HealthCheck option" where
  "provider_hc (CompatibleProvider n ps hc) = Some hc"
| "provider_hc (ProxySetProvider n inUse) = None"
| "provider_hc (ProxyFilterProvider n parent hc rx) = Some hc"

definition disabledPolicy :: "HealthCheck \<Rightarrow> bool" where
  "disabledPolicy hc \<longleftrightarrow> hc_url hc = [] \<and> hc_interval hc = 0 \<and> hc_lazy hc"

text \<open>
  A decoded configuration that is valid but for its strategy kind and its health check: it
  has a name, its filter compiles, it lists endpoints or references, the endpoints are in
  the endpoint registry, the name is free in the provider registry when endpoints are
  listed, the constructor of the synthetic provider accepts what it is given, and the
  references resolve to dynamic pools.
\<close>

definition otherwiseValid ::
  "('cfg, 'uo) env \<Rightarrow> (string \<rightharpoonup> proxy) \<Rightarrow> state \<Rightarrow> GroupCommonOption \<Rightarrow> bool" where
  "otherwiseValid e proxyMap st opt \<longleftrightarrow>
     Name opt \<noteq> [] \<and>
     (Filter opt \<noteq> [] \<longrightarrow> regexp_Compile e (Filter opt) = None) \<and>
     (Proxies opt \<noteq> [] \<or> Use opt \<noteq> []) \<and>
     (\<forall>name\<in>set (Proxies opt). proxyMap name \<noteq> None) \<and>
     (Proxies opt \<noteq> [] \<longrightarrow>
        providersMap st (Name opt) = None \<and>
        (case newHealthCheck (map (\<lambda>name. the (proxyMap name)) (Proxies opt)) opt of
           Inl err \<Rightarrow> True
         | Inr hc \<Rightarrow>
             NewCompatibleProvider_err e (Name opt)
               (map (\<lambda>name. the (proxyMap name)) (Proxies opt)) hc = None)) \<and>
     (\<forall>name\<in>set (Use opt). resolvesToPool (providersMap st) (heap st) name)"

text \<open>
  The call gets past line 97: the configuration decodes with a name and a kind, its filter
  compiles, it lists endpoints, and the block of the inline endpoints runs to its end, where
  the synthetic provider is written to the registry.
\<close>

definition inlineRegistered ::
  "('cfg, 'uo) env \<Rightarrow> 'cfg \<Rightarrow> (string \<rightharpoonup> proxy) \<Rightarrow> state \<Rightarrow> bool" where
  "inlineRegistered e config proxyMap st =
     (case Decode e config initOption of
        None \<Rightarrow> False
      | Some opt \<Rightarrow>
          Type opt \<noteq> [] \<and> Name opt \<noteq> [] \<and> Proxies opt \<noteq> [] \<and>
          (case compileFilter e opt of
             Inl err \<Rightarrow> False
           | Inr rx \<Rightarrow>
               (case fst (inlineProxies e proxyMap opt st) of
                  Inl err \<Rightarrow> False
                | Inr providers \<Rightarrow> True)))"

section \<open>Properties\<close>

subsection \<open>getProxies\<close>

lemma getProxies_loop_Inr:
  "getProxies_loop mapping list ps = Inr qs \<longleftrightarrow>
     (\<exists>rs. qs = ps @ rs \<and> map mapping list = map Some rs)"
proof (induction list arbitrary: ps)
  case Nil
  then show ?case by auto
next
  case (Cons name list)
  show ?case
  proof (cases "mapping name")
    case None
    then show ?thesis by auto
  next
    case (Some p)
    have "(\<exists>rs. qs = (ps @ [p]) @ rs \<and> map mapping list = map Some rs) \<longleftrightarrow>
          (\<exists>rs. qs = ps @ rs \<and> Some p # map mapping list = map Some rs)"
      by (auto simp: Cons_eq_map_conv)
    with Some Cons.IH [of "ps @ [p]"] show ?thesis by simp
  qed
qed


lemma getProxies_Inr: "getProxies mapping list = Inr ps \<longleftrightarrow> map mapping list = map Some ps"
  by (simp add: getProxies_def getProxies_loop_Inr)

lemma getProxies_all:
  "\<forall>n\<in>set list. mapping n \<noteq> None \<Longrightarrow>
   getProxies mapping list = Inr (map (\<lambda>n. the (mapping n)) list)"
  by (simp add: getProxies_Inr)


subsection \<open>The store\<close>

lemma asProxySetProvider_Some:
  "asProxySetProvider h p = Some (n, u) \<longleftrightarrow> p < length h \<and> h ! p = ProxySetProvider n u"
  by (auto simp: asProxySetProvider_def deref_def split: provider.splits)

lemma asProxySetProvider_None:
  "asProxySetProvider h p = None \<longleftrightarrow> (p < length h \<longrightarrow> (\<forall>n u. h ! p \<noteq> ProxySetProvider n u))"
  by (auto simp: asProxySetProvider_def deref_def split: provider.splits)

lemma grown_refl: "grown h h"
  by (auto simp: grown_def split: option.splits)

lemma grown_at:
  assumes "grown h h'"
  shows "case asProxySetProvider h r of
           Some (n, u) \<Rightarrow> (\<exists>u'. asProxySetProvider h' r = Some (n, u @ u'))
         | None \<Rightarrow> asProxySetProvider h' r = None \<and> (r < length h \<longrightarrow> h' ! r = h ! r)"
  using assms unfolding grown_def by blast

lemma grown_length: "grown h h' \<Longrightarrow> length h \<le> length h'"
  by (simp add: grown_def)

lemma grown_inUse:
  "grown h h' \<Longrightarrow> asProxySetProvider h r = Some (n, u) \<Longrightarrow>
   \<exists>u'. asProxySetProvider h' r = Some (n, u @ u')"
  using grown_at [of h h' r] by simp

lemma grown_no_pool:
  "grown h h' \<Longrightarrow> asProxySetProvider h r = None \<Longrightarrow> asProxySetProvider h' r = None"
  using grown_at [of h h' r] by simp

lemma grown_keeps:
  "grown h h' \<Longrightarrow> r < length h \<Longrightarrow> asProxySetProvider h r = None \<Longrightarrow> h' ! r = h ! r"
  using grown_at [of h h' r] by simp

lemma grown_pool:
  assumes "grown h h'"
  shows "asProxySetProvider h' r \<noteq> None \<longleftrightarrow> asProxySetProvider h r \<noteq> None"
proof (cases "asProxySetProvider h r")
  case None
  with assms show ?thesis by (simp add: grown_no_pool)
next
  case (Some nu)
  then obtain n u where "asProxySetProvider h r = Some (n, u)" by (cases nu) simp
  with assms show ?thesis by (auto dest: grown_inUse)
qed

lemma grown_resolvesToPool:
  assumes "grown h h'"
  shows "resolvesToPool m h' n = resolvesToPool m h n"
proof (cases "m n")
  case None
  then show ?thesis by (simp add: resolvesToPool_def)
next
  case (Some p)
  with grown_pool [OF assms, of p] show ?thesis
    unfolding resolvesToPool_def by (simp only: option.case)
qed

lemma grown_trans:
  assumes "grown h1 h2" and "grown h2 h3"
  shows "grown h1 h3"
proof -
  have len: "length h1 \<le> length h3"
    using assms by (simp add: grown_def)
  have "case asProxySetProvider h1 r of
          Some (n, u) \<Rightarrow> (\<exists>u'. asProxySetProvider h3 r = Some (n, u @ u'))
        | None \<Rightarrow> asProxySetProvider h3 r = None \<and> (r < length h1 \<longrightarrow> h3 ! r = h1 ! r)" for r
  proof (cases "asProxySetProvider h1 r")
    case None
    have a: "asProxySetProvider h2 r = None"
      using assms(1) None by (rule grown_no_pool)
    have b: "asProxySetProvider h3 r = None"
      using assms(2) a by (rule grown_no_pool)
    have "h3 ! r = h1 ! r" if "r < length h1"
    proof -
      from that assms(1) have "r < length h2" by (auto dest: grown_length)
      then have "h3 ! r = h2 ! r" using assms(2) a by (simp add: grown_keeps)
      also have "h2 ! r = h1 ! r" using assms(1) that None by (simp add: grown_keeps)
      finally show ?thesis .
    qed
    with None b show ?thesis by simp
  next
    case (Some nu)
    obtain n u where nu: "nu = (n, u)" by (cases nu)
    from grown_inUse [OF assms(1)] Some nu
    obtain u' where a: "asProxySetProvider h2 r = Some (n, u @ u')" by blast
    from grown_inUse [OF assms(2) a]
    obtain u'' where "asProxySetProvider h3 r = Some (n, (u @ u') @ u'')" by blast
    with Some nu show ?thesis by auto
  qed
  with len show ?thesis by (simp add: grown_def)
qed

text \<open>One round of the loop of \<^verbatim>\<open>getProviders\<close>: allocate, then register.\<close>

lemma round_length:
  "length (RegisterProvidersInUse (h @ [x]) p fp) = Suc (length h)"
  by (simp add: RegisterProvidersInUse_def split: option.splits)

lemma round_pool:
  assumes "asProxySetProvider h p = Some (n, u)"
  shows "asProxySetProvider
           (RegisterProvidersInUse (h @ [ProxyFilterProvider f q hc rx]) p fp) r =
         (if r = p then Some (n, u @ [fp]) else asProxySetProvider h r)"
proof -
  from assms have p: "p < length h" "h ! p = ProxySetProvider n u"
    by (simp_all add: asProxySetProvider_Some)
  then have "asProxySetProvider (h @ [ProxyFilterProvider f q hc rx]) p = Some (n, u)"
    by (simp add: asProxySetProvider_Some nth_append)
  then have reg: "RegisterProvidersInUse (h @ [ProxyFilterProvider f q hc rx]) p fp =
      (h @ [ProxyFilterProvider f q hc rx])[p := ProxySetProvider n (u @ [fp])]"
    by (simp add: RegisterProvidersInUse_def)
  show ?thesis
    using p unfolding reg
    by (auto simp: asProxySetProvider_def deref_def nth_append nth_list_update
        split: provider.splits)
qed

lemma round_nth:
  assumes "asProxySetProvider h p = Some (n, u)" and "r \<noteq> p" and "r \<le> length h"
  shows "RegisterProvidersInUse (h @ [x]) p fp ! r = (h @ [x]) ! r"
proof -
  from assms have p: "p < length h" "h ! p = ProxySetProvider n u"
    by (simp_all add: asProxySetProvider_Some)
  then have "asProxySetProvider (h @ [x]) p = Some (n, u)"
    by (simp add: asProxySetProvider_Some nth_append)
  then have "RegisterProvidersInUse (h @ [x]) p fp = (h @ [x])[p := ProxySetProvider n (u @ [fp])]"
    by (simp add: RegisterProvidersInUse_def)
  with assms(2) show ?thesis by simp
qed

lemma round_grown:
  assumes "asProxySetProvider h p = Some (n, u)"
  shows "grown h (RegisterProvidersInUse (h @ [ProxyFilterProvider f q hc rx]) p fp)"
proof -
  let ?h' = "RegisterProvidersInUse (h @ [ProxyFilterProvider f q hc rx]) p fp"
  have "case asProxySetProvider h r of
          Some (n, u) \<Rightarrow> (\<exists>u'. asProxySetProvider ?h' r = Some (n, u @ u'))
        | None \<Rightarrow> asProxySetProvider ?h' r = None \<and> (r < length h \<longrightarrow> ?h' ! r = h ! r)" for r
  proof (cases "r = p")
    case True
    with assms show ?thesis by (simp add: round_pool)
  next
    case False
    then have "asProxySetProvider ?h' r = asProxySetProvider h r"
      using assms by (simp add: round_pool)
    moreover have "r < length h \<longrightarrow> ?h' ! r = h ! r"
      using assms False by (simp add: round_nth nth_append)
    ultimately show ?thesis
      by (cases "asProxySetProvider h r") auto
  qed
  then show ?thesis by (simp add: grown_def round_length)
qed

subsection \<open>getProviders\<close>

lemma getProviders_loop_round:
  assumes "m name = Some p" and "asProxySetProvider h p = Some (n, u)"
    and "newHealthCheck [] opt = Inr hc"
  shows "getProviders_loop m opt rx (name # rest) ps h =
         getProviders_loop m opt rx rest (ps @ [length h])
           (RegisterProvidersInUse
              (h @ [ProxyFilterProvider (name @ ''-in-'' @ Name opt) p hc rx]) p (length h))"
  using assms by (simp add: Let_def)

lemma resolvesToPoolE:
  assumes "resolvesToPool m h name"
  obtains p n u where "m name = Some p" and "asProxySetProvider h p = Some (n, u)"
  using assms by (auto simp: resolvesToPool_def split: option.splits)

text \<open>
  While the names resolve to pools and the policy can be built, the loop allocates one
  derived provider per name, at consecutive addresses, and registers each with its pool.
\<close>

lemma getProviders_loop_prefix:
  assumes "\<forall>name\<in>set pre. resolvesToPool m h name" and "newHealthCheck [] opt = Inr hc"
  shows "\<exists>h1. getProviders_loop m opt rx (pre @ rest) ps h =
               getProviders_loop m opt rx rest (ps @ [length h..<length h + length pre]) h1 \<and>
           grown h h1 \<and> length h1 = length h + length pre \<and>
           (\<forall>i<length pre.
              h1 ! (length h + i) =
                ProxyFilterProvider (pre ! i @ ''-in-'' @ Name opt) (the (m (pre ! i))) hc rx \<and>
              (\<exists>n u. asProxySetProvider h1 (the (m (pre ! i))) = Some (n, u) \<and>
                     length h + i \<in> set u))"
  using assms(1)
proof (induction pre arbitrary: ps h)
  case Nil
  have "getProviders_loop m opt rx rest ps h = getProviders_loop m opt rx rest ps h \<and>
        grown h h \<and> length h = length h"
    by (simp add: grown_refl)
  then show ?case by auto
next
  case (Cons name pre)
  from Cons.prems have "resolvesToPool m h name" by simp
  then obtain p n u where p: "m name = Some p" "asProxySetProvider h p = Some (n, u)"
    by (rule resolvesToPoolE)
  define x where "x = ProxyFilterProvider (name @ ''-in-'' @ Name opt) p hc rx"
  define h2 where "h2 = RegisterProvidersInUse (h @ [x]) p (length h)"
  have plt: "p < length h"
    using p(2) by (simp add: asProxySetProvider_Some)
  have g2: "grown h h2"
    unfolding h2_def x_def using p(2) by (rule round_grown)
  have l2: "length h2 = Suc (length h)"
    unfolding h2_def by (rule round_length)
  have new2: "h2 ! length h = x"
    unfolding h2_def using p(2) plt by (simp add: round_nth)
  have pool2: "asProxySetProvider h2 p = Some (n, u @ [length h])"
    unfolding h2_def x_def using p(2) by (simp add: round_pool)
  have nopool2: "asProxySetProvider h2 (length h) = None"
    using new2 by (simp add: asProxySetProvider_None x_def)
  have step: "getProviders_loop m opt rx ((name # pre) @ rest) ps h =
              getProviders_loop m opt rx (pre @ rest) (ps @ [length h]) h2"
    unfolding h2_def x_def using p assms(2) by (simp add: Let_def)
  have "\<forall>name\<in>set pre. resolvesToPool m h2 name"
    using Cons.prems g2 by (simp add: grown_resolvesToPool)
  from Cons.IH [OF this, of "ps @ [length h]"]
  obtain h1 where h1:
    "getProviders_loop m opt rx (pre @ rest) (ps @ [length h]) h2 =
     getProviders_loop m opt rx rest ((ps @ [length h]) @ [length h2..<length h2 + length pre]) h1"
    "grown h2 h1" "length h1 = length h2 + length pre"
    "\<forall>i<length pre.
        h1 ! (length h2 + i) =
          ProxyFilterProvider (pre ! i @ ''-in-'' @ Name opt) (the (m (pre ! i))) hc rx \<and>
        (\<exists>n u. asProxySetProvider h1 (the (m (pre ! i))) = Some (n, u) \<and> length h2 + i \<in> set u)"
    by blast
  have refs: "(ps @ [length h]) @ [length h2..<length h2 + length pre] =
              ps @ [length h..<length h + length (name # pre)]"
  proof -
    have "[length h..<length h + Suc (length pre)] =
          length h # [Suc (length h)..<length h + Suc (length pre)]"
      by (rule upt_conv_Cons) simp
    then show ?thesis by (simp add: l2)
  qed
  have eq: "getProviders_loop m opt rx ((name # pre) @ rest) ps h =
            getProviders_loop m opt rx rest (ps @ [length h..<length h + length (name # pre)]) h1"
    using step h1(1) refs by simp
  have g: "grown h h1"
    using g2 h1(2) by (rule grown_trans)
  have len: "length h1 = length h + length (name # pre)"
    using h1(3) l2 by simp
  have each: "h1 ! (length h + i) =
          ProxyFilterProvider ((name # pre) ! i @ ''-in-'' @ Name opt)
            (the (m ((name # pre) ! i))) hc rx \<and>
        (\<exists>n u. asProxySetProvider h1 (the (m ((name # pre) ! i))) = Some (n, u) \<and>
               length h + i \<in> set u)"
    if "i < length (name # pre)" for i
  proof (cases i)
    case 0
    have "h1 ! length h = h2 ! length h"
      using h1(2) nopool2 l2 by (simp add: grown_keeps)
    then have a: "h1 ! length h = x" using new2 by simp
    from grown_inUse [OF h1(2) pool2]
    obtain u' where "asProxySetProvider h1 p = Some (n, (u @ [length h]) @ u')" by blast
    then have "\<exists>n u. asProxySetProvider h1 p = Some (n, u) \<and> length h \<in> set u"
      by auto
    with a 0 p(1) show ?thesis by (simp add: x_def)
  next
    case (Suc j)
    with that have "j < length pre" by simp
    with h1(4) have
      "h1 ! (length h2 + j) =
          ProxyFilterProvider (pre ! j @ ''-in-'' @ Name opt) (the (m (pre ! j))) hc rx \<and>
        (\<exists>n u. asProxySetProvider h1 (the (m (pre ! j))) = Some (n, u) \<and> length h2 + j \<in> set u)"
      by blast
    with Suc l2 show ?thesis by simp
  qed
  from eq g len each show ?case by blast
qed

text \<open>Whatever the outcome, the loop only grows the store.\<close>

lemma getProviders_loop_grown:
  "getProviders_loop m opt rx names ps h = (res, h') \<Longrightarrow> grown h h'"
proof (induction names arbitrary: ps h)
  case Nil
  then show ?case by (simp add: grown_refl)
next
  case (Cons name names)
  show ?case
  proof (cases "resolvesToPool m h name \<and> (\<exists>hc. newHealthCheck [] opt = Inr hc)")
    case True
    then obtain hc where hc: "newHealthCheck [] opt = Inr hc" by blast
    from True obtain p n u where p: "m name = Some p" "asProxySetProvider h p = Some (n, u)"
      by (blast elim: resolvesToPoolE)
    let ?h2 = "RegisterProvidersInUse
        (h @ [ProxyFilterProvider (name @ ''-in-'' @ Name opt) p hc rx]) p (length h)"
    from Cons.prems have "getProviders_loop m opt rx names (ps @ [length h]) ?h2 = (res, h')"
      using p hc by (simp add: Let_def)
    then have "grown ?h2 h'" by (rule Cons.IH)
    with round_grown [OF p(2)] show ?thesis by (rule grown_trans)
  next
    case False
    with Cons.prems have "h' = h"
      by (auto simp: resolvesToPool_def split: option.splits sum.splits)
    then show ?thesis by (simp add: grown_refl)
  qed
qed

text \<open>The loop returns a list only if every name resolved to a pool.\<close>

lemma getProviders_loop_Inr:
  "getProviders_loop m opt rx names ps h = (Inr list, h') \<Longrightarrow>
   (\<forall>name\<in>set names. resolvesToPool m h name) \<and>
   (names \<noteq> [] \<longrightarrow> (\<exists>hc. newHealthCheck [] opt = Inr hc))"
proof (induction names arbitrary: ps h)
  case Nil
  then show ?case by simp
next
  case (Cons name names)
  have ok: "resolvesToPool m h name \<and> (\<exists>hc. newHealthCheck [] opt = Inr hc)"
    using Cons.prems by (auto simp: resolvesToPool_def split: option.splits sum.splits)
  then obtain hc where hc: "newHealthCheck [] opt = Inr hc" by blast
  from ok obtain p n u where p: "m name = Some p" "asProxySetProvider h p = Some (n, u)"
    by (blast elim: resolvesToPoolE)
  let ?h2 = "RegisterProvidersInUse
      (h @ [ProxyFilterProvider (name @ ''-in-'' @ Name opt) p hc rx]) p (length h)"
  from Cons.prems have "getProviders_loop m opt rx names (ps @ [length h]) ?h2 = (Inr list, h')"
    using p hc by (simp add: Let_def)
  then have "\<forall>name\<in>set names. resolvesToPool m ?h2 name" by (simp add: Cons.IH)
  moreover have "grown h ?h2" using p(2) by (rule round_grown)
  ultimately have "\<forall>name\<in>set names. resolvesToPool m h name"
    by (simp only: grown_resolvesToPool)
  with ok show ?case by simp
qed

text \<open>The first name that fails decides the error.\<close>

lemma getProviders_loop_not_found:
  "m name = None \<Longrightarrow>
   getProviders_loop m opt rx (name # rest) ps h = (Inl (errNotFound name), h)"
  by simp

lemma getProviders_loop_no_pool:
  "m name = Some p \<Longrightarrow> asProxySetProvider h p = None \<Longrightarrow>
   getProviders_loop m opt rx (name # rest) ps h = (Inl (errCantContain name), h)"
  by simp


lemma getProviders_grown: "getProviders m opt rx h = (res, h') \<Longrightarrow> grown h h'"
  unfolding getProviders_def by (rule getProviders_loop_grown)

lemma getProviders_ok:
  assumes "\<forall>name\<in>set (Use opt). resolvesToPool m h name" and "newHealthCheck [] opt = Inr hc"
  shows "\<exists>h'. getProviders m opt rx h = (Inr [length h..<length h + length (Use opt)], h') \<and>
           grown h h' \<and> length h' = length h + length (Use opt) \<and>
           (\<forall>i<length (Use opt).
              h' ! (length h + i) =
                ProxyFilterProvider (Use opt ! i @ ''-in-'' @ Name opt)
                  (the (m (Use opt ! i))) hc rx \<and>
              (\<exists>n u. asProxySetProvider h' (the (m (Use opt ! i))) = Some (n, u) \<and>
                     length h + i \<in> set u))"
  using getProviders_loop_prefix [OF assms, of rx "[]" "[]"]
  by (simp add: getProviders_def)

lemma getProviders_InrD:
  assumes "getProviders m opt rx h = (Inr list, h')" and "Use opt \<noteq> []"
  shows "\<exists>hc. newHealthCheck [] opt = Inr hc \<and>
           (\<forall>name\<in>set (Use opt). resolvesToPool m h name) \<and>
           list = [length h..<length h + length (Use opt)] \<and>
           grown h h' \<and> length h' = length h + length (Use opt) \<and>
           (\<forall>i<length (Use opt).
              h' ! (length h + i) =
                ProxyFilterProvider (Use opt ! i @ ''-in-'' @ Name opt)
                  (the (m (Use opt ! i))) hc rx \<and>
              (\<exists>n u. asProxySetProvider h' (the (m (Use opt ! i))) = Some (n, u) \<and>
                     length h + i \<in> set u))"
proof -
  from assms have pools: "\<forall>name\<in>set (Use opt). resolvesToPool m h name"
    and "\<exists>hc. newHealthCheck [] opt = Inr hc"
    using getProviders_loop_Inr [of m opt rx "Use opt" "[]" h list h']
    by (simp_all add: getProviders_def)
  then obtain hc where hc: "newHealthCheck [] opt = Inr hc" by blast
  from getProviders_ok [OF pools hc, of rx] assms(1) pools hc show ?thesis
    by auto
qed

subsection \<open>The steps of ParseProxyGroup\<close>

lemma grown_alloc:
  assumes "\<And>n u. x \<noteq> ProxySetProvider n u"
  shows "grown h (h @ [x])"
proof -
  have "asProxySetProvider (h @ [x]) r = asProxySetProvider h r" for r
    using assms
    by (auto simp: asProxySetProvider_def deref_def nth_append split: provider.splits)
  then show ?thesis
    by (auto simp: grown_def nth_append split: option.splits)
qed

lemma compileFilter_ok:
  "Filter opt \<noteq> [] \<longrightarrow> regexp_Compile e (Filter opt) = None \<Longrightarrow>
   compileFilter e opt = Inr (if Filter opt = [] then None else Some (Regexp (Filter opt)))"
  by (simp add: compileFilter_def)

lemma inlineProxies_skip: "Proxies opt = [] \<Longrightarrow> inlineProxies e pm opt st = (Inr [], st)"
  by (simp add: inlineProxies_def)

lemma inlineProxies_ok:
  assumes "Proxies opt \<noteq> []" and "getProxies pm (Proxies opt) = Inr ps"
    and "providersMap st (Name opt) = None" and "newHealthCheck ps opt = Inr hc"
    and "NewCompatibleProvider_err e (Name opt) ps hc = None"
  shows "inlineProxies e pm opt st =
         (Inr [length (heap st)],
          st\<lparr> heap := heap st @ [CompatibleProvider (Name opt) ps hc],
              providersMap := (providersMap st)(Name opt \<mapsto> length (heap st)) \<rparr>)"
  using assms by (simp add: inlineProxies_def Let_def)

lemma inlineProxies_InrD:
  assumes "inlineProxies e pm opt st = (Inr providers, st1)"
  shows "(Proxies opt = [] \<and> providers = [] \<and> st1 = st) \<or>
         (Proxies opt \<noteq> [] \<and> providersMap st (Name opt) = None \<and>
          providers = [length (heap st)] \<and>
          (\<exists>ps hc. getProxies pm (Proxies opt) = Inr ps \<and> newHealthCheck ps opt = Inr hc \<and>
             NewCompatibleProvider_err e (Name opt) ps hc = None \<and>
             st1 = st\<lparr> heap := heap st @ [CompatibleProvider (Name opt) ps hc],
                        providersMap := (providersMap st)(Name opt \<mapsto> length (heap st)) \<rparr>))"
  using assms
  by (auto simp: inlineProxies_def Let_def split: if_splits sum.splits option.splits)

lemma inlineProxies_InlD:
  assumes "inlineProxies e pm opt st = (Inl err, st1)"
  shows "st1 = st \<and> Proxies opt \<noteq> [] \<and> (\<exists>err0. err = wrapName (Name opt) err0)"
  using assms
  by (auto simp: inlineProxies_def Let_def split: if_splits sum.splits option.splits)

lemma useProviders_skip: "Use opt = [] \<Longrightarrow> useProviders opt rx providers st = (Inr providers, st)"
  by (simp add: useProviders_def)

lemma useProviders_InrD:
  assumes "useProviders opt rx providers st = (Inr providers2, st2)"
  shows "providersMap st2 = providersMap st \<and>
         ((Use opt = [] \<and> providers2 = providers \<and> st2 = st) \<or>
          (Use opt \<noteq> [] \<and>
           (\<exists>list. getProviders (providersMap st) opt rx (heap st) = (Inr list, heap st2) \<and>
              providers2 = (if Type opt = ''fallback'' then list @ providers
                            else providers @ list))))"
  using assms
  by (auto simp: useProviders_def split: if_splits sum.splits prod.splits)

lemma useProviders_InlD:
  assumes "useProviders opt rx providers st = (Inl err, st2)"
  shows "providersMap st2 = providersMap st \<and> Use opt \<noteq> [] \<and>
         (\<exists>err0. getProviders (providersMap st) opt rx (heap st) = (Inl err0, heap st2) \<and>
            err = wrapName (Name opt) err0)"
  using assms
  by (auto simp: useProviders_def split: if_splits sum.splits prod.splits)

lemma ParseProxyGroup_steps:
  assumes "Decode e config initOption = Some opt" and "Type opt \<noteq> []" and "Name opt \<noteq> []"
    and "compileFilter e opt = Inr rx" and "Proxies opt \<noteq> [] \<or> Use opt \<noteq> []"
  shows "ParseProxyGroup e config pm st =
         (case inlineProxies e pm opt st of
            (Inl err, st1) \<Rightarrow> (Inl err, st1)
          | (Inr providers, st1) \<Rightarrow>
              (case useProviders opt rx providers st1 of
                 (Inl err, st2) \<Rightarrow> (Inl err, st2)
               | (Inr providers2, st2) \<Rightarrow> (dispatch e config opt providers2, st2)))"
  using assms by (auto simp: ParseProxyGroup_def)

lemma ParseProxyGroup_InrD:
  assumes "ParseProxyGroup e config pm st = (Inr a, st')"
  shows "\<exists>opt rx providers st1 providers2.
           Decode e config initOption = Some opt \<and> Type opt \<noteq> [] \<and> Name opt \<noteq> [] \<and>
           compileFilter e opt = Inr rx \<and> (Proxies opt \<noteq> [] \<or> Use opt \<noteq> []) \<and>
           inlineProxies e pm opt st = (Inr providers, st1) \<and>
           useProviders opt rx providers st1 = (Inr providers2, st') \<and>
           dispatch e config opt providers2 = Inr a"
  using assms
  by (auto simp: ParseProxyGroup_def split: option.splits if_splits sum.splits prod.splits)

lemma dispatch_providers: "dispatch e config opt providers = Inr a \<Longrightarrow> adapter_providers a = providers"
  by (auto simp: dispatch_def Let_def split: if_splits option.splits)

text \<open>What a successful call has done, read off the steps.\<close>

lemma ParseProxyGroup_result:
  assumes "ParseProxyGroup e config pm st = (Inr a, st')"
    and "Decode e config initOption = Some opt"
  shows "\<exists>rx.
     Type opt \<noteq> [] \<and> Name opt \<noteq> [] \<and>
     compileFilter e opt = Inr rx \<and> (Proxies opt \<noteq> [] \<or> Use opt \<noteq> []) \<and>
     dispatch e config opt (adapter_providers a) = Inr a \<and>
     grown (heap st) (heap st') \<and>
     (Proxies opt = [] \<longrightarrow>
        providersMap st' = providersMap st \<and>
        adapter_providers a = [length (heap st)..<length (heap st) + length (Use opt)]) \<and>
     (Proxies opt \<noteq> [] \<longrightarrow>
        providersMap st (Name opt) = None \<and>
        providersMap st' = (providersMap st)(Name opt \<mapsto> length (heap st)) \<and>
        (\<exists>ps hc. getProxies pm (Proxies opt) = Inr ps \<and> newHealthCheck ps opt = Inr hc \<and>
           NewCompatibleProvider_err e (Name opt) ps hc = None \<and>
           deref (heap st') (length (heap st)) = Some (CompatibleProvider (Name opt) ps hc)) \<and>
        adapter_providers a =
          (if Type opt = ''fallback''
           then [Suc (length (heap st))..<Suc (length (heap st)) + length (Use opt)] @
                [length (heap st)]
           else length (heap st) #
                [Suc (length (heap st))..<Suc (length (heap st)) + length (Use opt)])) \<and>
     (Use opt \<noteq> [] \<longrightarrow>
        (\<exists>hc. newHealthCheck [] opt = Inr hc \<and>
           (\<forall>i<length (Use opt).
              deref (heap st') (length (heap st) + (if Proxies opt = [] then 0 else 1) + i) =
                Some (ProxyFilterProvider (Use opt ! i @ ''-in-'' @ Name opt)
                        (the (providersMap st' (Use opt ! i))) hc rx) \<and>
              (\<exists>n u. asProxySetProvider (heap st') (the (providersMap st' (Use opt ! i))) =
                       Some (n, u) \<and>
                     length (heap st) + (if Proxies opt = [] then 0 else 1) + i \<in> set u))))"
proof -
  from ParseProxyGroup_InrD [OF assms(1)]
  obtain opt0 rx providers st1 providers2 where
    dec0: "Decode e config initOption = Some opt0" "Type opt0 \<noteq> []" "Name opt0 \<noteq> []"
      "compileFilter e opt0 = Inr rx" "Proxies opt0 \<noteq> [] \<or> Use opt0 \<noteq> []"
    and inl0: "inlineProxies e pm opt0 st = (Inr providers, st1)"
    and use0: "useProviders opt0 rx providers st1 = (Inr providers2, st')"
    and dis0: "dispatch e config opt0 providers2 = Inr a"
    by blast
  have o: "opt0 = opt" using dec0(1) assms(2) by simp
  note dec = dec0(2-5) [unfolded o] and inl = inl0 [unfolded o] and use = use0 [unfolded o]
    and dis = dis0 [unfolded o]
  have ap: "adapter_providers a = providers2"
    using dis by (rule dispatch_providers)
  define k where "k = (if Proxies opt = [] then 0 else 1::nat)"
  \<comment> \<open>the inline step\<close>
  have A: "grown (heap st) (heap st1) \<and> length (heap st1) = length (heap st) + k \<and>
      (Proxies opt = [] \<longrightarrow> providersMap st1 = providersMap st \<and> providers = []) \<and>
      (Proxies opt \<noteq> [] \<longrightarrow>
        providersMap st (Name opt) = None \<and>
        providersMap st1 = (providersMap st)(Name opt \<mapsto> length (heap st)) \<and>
        providers = [length (heap st)] \<and>
        (\<exists>ps hc. getProxies pm (Proxies opt) = Inr ps \<and> newHealthCheck ps opt = Inr hc \<and>
           NewCompatibleProvider_err e (Name opt) ps hc = None \<and>
           heap st1 = heap st @ [CompatibleProvider (Name opt) ps hc]))"
    using inlineProxies_InrD [OF inl]
    by (auto simp: k_def grown_refl grown_alloc)
  \<comment> \<open>the use step\<close>
  from useProviders_InrD [OF use]
  have m': "providersMap st' = providersMap st1"
    and B: "(Use opt = [] \<and> providers2 = providers \<and> st' = st1) \<or>
          (Use opt \<noteq> [] \<and>
           (\<exists>list. getProviders (providersMap st1) opt rx (heap st1) = (Inr list, heap st') \<and>
              providers2 = (if Type opt = ''fallback'' then list @ providers
                            else providers @ list)))"
    by simp_all
  have C: "grown (heap st1) (heap st') \<and>
      providers2 = (if Type opt = ''fallback''
                    then [length (heap st1)..<length (heap st1) + length (Use opt)] @ providers
                    else providers @ [length (heap st1)..<length (heap st1) + length (Use opt)]) \<and>
      (Use opt \<noteq> [] \<longrightarrow>
        (\<exists>hc. newHealthCheck [] opt = Inr hc \<and>
           (\<forall>i<length (Use opt).
              deref (heap st') (length (heap st1) + i) =
                Some (ProxyFilterProvider (Use opt ! i @ ''-in-'' @ Name opt)
                        (the (providersMap st1 (Use opt ! i))) hc rx) \<and>
              (\<exists>n u. asProxySetProvider (heap st') (the (providersMap st1 (Use opt ! i))) =
                       Some (n, u) \<and> length (heap st1) + i \<in> set u))))"
  proof (cases "Use opt = []")
    case True
    with B show ?thesis by (auto simp: grown_refl)
  next
    case False
    with B obtain list where
      gp: "getProviders (providersMap st1) opt rx (heap st1) = (Inr list, heap st')"
      and p2: "providers2 = (if Type opt = ''fallback'' then list @ providers
                            else providers @ list)"
      by blast
    from getProviders_InrD [OF gp False] p2 show ?thesis
      by (auto simp: deref_def)
  qed
  have g: "grown (heap st) (heap st')"
    using A C by (blast intro: grown_trans)
  have keep: "deref (heap st') (length (heap st)) = Some (CompatibleProvider (Name opt) ps hc)"
    if "heap st1 = heap st @ [CompatibleProvider (Name opt) ps hc]" for ps hc
  proof -
    have lt: "length (heap st) < length (heap st1)" using that by simp
    have "asProxySetProvider (heap st1) (length (heap st)) = None"
      using that by (simp add: asProxySetProvider_None)
    with C lt have "heap st' ! length (heap st) = heap st1 ! length (heap st)"
      by (simp add: grown_keeps)
    moreover have "length (heap st) < length (heap st')"
      using lt C by (auto dest: grown_length)
    ultimately show ?thesis using that by (simp add: deref_def)
  qed
  have P0: "Proxies opt = [] \<longrightarrow>
        providersMap st' = providersMap st \<and>
        adapter_providers a = [length (heap st)..<length (heap st) + length (Use opt)]"
    using A C m' ap by (auto simp: k_def)
  have P1: "Proxies opt \<noteq> [] \<longrightarrow>
        providersMap st (Name opt) = None \<and>
        providersMap st' = (providersMap st)(Name opt \<mapsto> length (heap st)) \<and>
        (\<exists>ps hc. getProxies pm (Proxies opt) = Inr ps \<and> newHealthCheck ps opt = Inr hc \<and>
           NewCompatibleProvider_err e (Name opt) ps hc = None \<and>
           deref (heap st') (length (heap st)) = Some (CompatibleProvider (Name opt) ps hc)) \<and>
        adapter_providers a =
          (if Type opt = ''fallback''
           then [Suc (length (heap st))..<Suc (length (heap st)) + length (Use opt)] @
                [length (heap st)]
           else length (heap st) #
                [Suc (length (heap st))..<Suc (length (heap st)) + length (Use opt)])"
  proof
    assume ne: "Proxies opt \<noteq> []"
    with A obtain ps hc where x: "getProxies pm (Proxies opt) = Inr ps"
      "newHealthCheck ps opt = Inr hc" "NewCompatibleProvider_err e (Name opt) ps hc = None"
      "heap st1 = heap st @ [CompatibleProvider (Name opt) ps hc]"
      by blast
    have l1: "length (heap st1) = Suc (length (heap st))" using x(4) by simp
    from ne A have pr: "providers = [length (heap st)]" by simp
    have "adapter_providers a =
          (if Type opt = ''fallback''
           then [Suc (length (heap st))..<Suc (length (heap st)) + length (Use opt)] @
                [length (heap st)]
           else length (heap st) #
                [Suc (length (heap st))..<Suc (length (heap st)) + length (Use opt)])"
      using C ap pr l1 by simp
    with ne A m' x(1-3) keep [OF x(4)] show
       "providersMap st (Name opt) = None \<and>
        providersMap st' = (providersMap st)(Name opt \<mapsto> length (heap st)) \<and>
        (\<exists>ps hc. getProxies pm (Proxies opt) = Inr ps \<and> newHealthCheck ps opt = Inr hc \<and>
           NewCompatibleProvider_err e (Name opt) ps hc = None \<and>
           deref (heap st') (length (heap st)) = Some (CompatibleProvider (Name opt) ps hc)) \<and>
        adapter_providers a =
          (if Type opt = ''fallback''
           then [Suc (length (heap st))..<Suc (length (heap st)) + length (Use opt)] @
                [length (heap st)]
           else length (heap st) #
                [Suc (length (heap st))..<Suc (length (heap st)) + length (Use opt)])"
      by auto
  qed
  have l1: "length (heap st1) = length (heap st) + (if Proxies opt = [] then 0 else 1)"
    using A by (simp add: k_def)
  have P2: "Use opt \<noteq> [] \<longrightarrow>
        (\<exists>hc. newHealthCheck [] opt = Inr hc \<and>
           (\<forall>i<length (Use opt).
              deref (heap st') (length (heap st) + (if Proxies opt = [] then 0 else 1) + i) =
                Some (ProxyFilterProvider (Use opt ! i @ ''-in-'' @ Name opt)
                        (the (providersMap st' (Use opt ! i))) hc rx) \<and>
              (\<exists>n u. asProxySetProvider (heap st') (the (providersMap st' (Use opt ! i))) =
                       Some (n, u) \<and>
                     length (heap st) + (if Proxies opt = [] then 0 else 1) + i \<in> set u)))"
    using C unfolding m' l1 by blast
  from dec dis ap g P0 P1 P2 show ?thesis by blast
qed

text \<open>A valid configuration resolves, once its policy and its adapter can be built.\<close>

lemma ParseProxyGroup_succeeds:
  assumes dec: "Decode e config initOption = Some opt" and ty: "Type opt \<noteq> []"
    and valid: "otherwiseValid e pm st opt"
    and hcs: "\<And>ps. \<exists>hc. newHealthCheck ps opt = Inr hc"
    and dis: "\<And>providers. \<exists>a. dispatch e config opt providers = Inr a"
  shows "\<exists>a st'. ParseProxyGroup e config pm st = (Inr a, st')"
proof -
  from valid have name: "Name opt \<noteq> []"
    and some: "Proxies opt \<noteq> [] \<or> Use opt \<noteq> []"
    and flt: "Filter opt \<noteq> [] \<longrightarrow> regexp_Compile e (Filter opt) = None"
    and eps: "\<forall>name\<in>set (Proxies opt). pm name \<noteq> None"
    and pools: "\<forall>name\<in>set (Use opt). resolvesToPool (providersMap st) (heap st) name"
    by (simp_all add: otherwiseValid_def)
  define rx where "rx = (if Filter opt = [] then None else Some (Regexp (Filter opt)))"
  have cf: "compileFilter e opt = Inr rx"
    unfolding rx_def using flt by (rule compileFilter_ok)
  have "\<exists>providers st1. inlineProxies e pm opt st = (Inr providers, st1) \<and>
          (\<forall>name\<in>set (Use opt). resolvesToPool (providersMap st1) (heap st1) name)"
  proof (cases "Proxies opt = []")
    case True
    with pools show ?thesis by (auto simp: inlineProxies_skip)
  next
    case False
    define ps where "ps = map (\<lambda>name. the (pm name)) (Proxies opt)"
    have gp: "getProxies pm (Proxies opt) = Inr ps"
      unfolding ps_def using eps by (rule getProxies_all)
    from hcs obtain hc where hc: "newHealthCheck ps opt = Inr hc" by blast
    from valid False hc have free: "providersMap st (Name opt) = None"
      and ctor: "NewCompatibleProvider_err e (Name opt) ps hc = None"
      by (simp_all add: otherwiseValid_def ps_def)
    let ?st1 = "st\<lparr> heap := heap st @ [CompatibleProvider (Name opt) ps hc],
                  providersMap := (providersMap st)(Name opt \<mapsto> length (heap st)) \<rparr>"
    have inl: "inlineProxies e pm opt st = (Inr [length (heap st)], ?st1)"
      using False gp free hc ctor by (rule inlineProxies_ok)
    have g: "grown (heap st) (heap st @ [CompatibleProvider (Name opt) ps hc])"
      by (rule grown_alloc) simp
    have "resolvesToPool (providersMap ?st1) (heap ?st1) name" if "name \<in> set (Use opt)" for name
    proof -
      from that pools have r: "resolvesToPool (providersMap st) (heap st) name" by blast
      with free have "name \<noteq> Name opt" by (auto simp: resolvesToPool_def)
      then have "resolvesToPool (providersMap ?st1) (heap ?st1) name =
                 resolvesToPool (providersMap st) (heap ?st1) name"
        by (simp add: resolvesToPool_def)
      also have "\<dots> = resolvesToPool (providersMap st) (heap st) name"
        using g by (simp add: grown_resolvesToPool)
      finally show ?thesis using r by simp
    qed
    with inl show ?thesis by blast
  qed
  then obtain providers st1 where inl: "inlineProxies e pm opt st = (Inr providers, st1)"
    and pools1: "\<forall>name\<in>set (Use opt). resolvesToPool (providersMap st1) (heap st1) name"
    by blast
  have "\<exists>providers2 st2. useProviders opt rx providers st1 = (Inr providers2, st2)"
  proof (cases "Use opt = []")
    case True
    then show ?thesis by (simp add: useProviders_skip)
  next
    case False
    from hcs obtain hc where hc: "newHealthCheck [] opt = Inr hc" by blast
    from getProviders_ok [OF pools1 hc, of rx] False show ?thesis
      by (auto simp: useProviders_def)
  qed
  then obtain providers2 st2 where use: "useProviders opt rx providers st1 = (Inr providers2, st2)"
    by blast
  from dis obtain a where "dispatch e config opt providers2 = Inr a" by blast
  with inl use have "ParseProxyGroup e config pm st = (Inr a, st2)"
    by (simp add: ParseProxyGroup_steps [OF dec ty name cf some])
  then show ?thesis by blast
qed

lemma newHealthCheck_disabled:
  "Type opt = ''select'' \<or> Type opt = ''relay'' \<Longrightarrow>
   newHealthCheck ps opt = Inr (NewHealthCheck ps [] 0 True)"
  by (auto simp: newHealthCheck_def)

lemma disabledPolicy_NewHealthCheck: "disabledPolicy (NewHealthCheck ps [] 0 True)"
  by (simp add: disabledPolicy_def NewHealthCheck_def)

text \<open>A successful call allocates the synthetic provider and one derived provider per name.\<close>

lemma ParseProxyGroup_heap_length:
  assumes "ParseProxyGroup e config pm st = (Inr a, st')"
    and "Decode e config initOption = Some opt"
  shows "length (heap st') =
         length (heap st) + (if Proxies opt = [] then 0 else 1) + length (Use opt)"
proof -
  from ParseProxyGroup_InrD [OF assms(1)]
  obtain opt0 rx providers st1 providers2 where
    dec0: "Decode e config initOption = Some opt0"
    and inl0: "inlineProxies e pm opt0 st = (Inr providers, st1)"
    and use0: "useProviders opt0 rx providers st1 = (Inr providers2, st')"
    by blast
  have o: "opt0 = opt" using dec0 assms(2) by simp
  note inl = inl0 [unfolded o] and use = use0 [unfolded o]
  have l1: "length (heap st1) = length (heap st) + (if Proxies opt = [] then 0 else 1)"
    using inlineProxies_InrD [OF inl] by auto
  have "length (heap st') = length (heap st1) + length (Use opt)"
  proof (cases "Use opt = []")
    case True
    with useProviders_InrD [OF use] show ?thesis by auto
  next
    case False
    with useProviders_InrD [OF use] obtain list where
      "getProviders (providersMap st1) opt rx (heap st1) = (Inr list, heap st')"
      by auto
    from getProviders_InrD [OF this False] show ?thesis by blast
  qed
  with l1 show ?thesis by simp
qed

text \<open>A name that does not resolve to a pool does not resolve to one after the inline step.\<close>

lemma inlineProxies_keeps_unresolved:
  assumes "inlineProxies e pm opt st = (Inr providers, st1)"
    and "\<not> resolvesToPool (providersMap st) (heap st) n"
  shows "\<not> resolvesToPool (providersMap st1) (heap st1) n"
proof (cases "Proxies opt = []")
  case True
  with inlineProxies_InrD [OF assms(1)] assms(2) show ?thesis by auto
next
  case False
  with inlineProxies_InrD [OF assms(1)] obtain ps hc where
    st1: "st1 = st\<lparr> heap := heap st @ [CompatibleProvider (Name opt) ps hc],
                      providersMap := (providersMap st)(Name opt \<mapsto> length (heap st)) \<rparr>"
    by blast
  show ?thesis
  proof (cases "n = Name opt")
    case True
    have "asProxySetProvider (heap st @ [CompatibleProvider (Name opt) ps hc])
        (length (heap st)) = None"
      by (simp add: asProxySetProvider_None)
    with True st1 show ?thesis by (simp add: resolvesToPool_def)
  next
    case False
    have g: "grown (heap st) (heap st @ [CompatibleProvider (Name opt) ps hc])"
      by (rule grown_alloc) simp
    from False st1 have "resolvesToPool (providersMap st1) (heap st1) n =
        resolvesToPool (providersMap st) (heap st @ [CompatibleProvider (Name opt) ps hc]) n"
      by (simp add: resolvesToPool_def)
    also have "\<dots> = resolvesToPool (providersMap st) (heap st) n"
      using g by (rule grown_resolvesToPool)
    finally show ?thesis using assms(2) by simp
  qed
qed

text \<open>A reference that does not resolve to a pool makes the whole call fail.\<close>

lemma ParseProxyGroup_unresolved_fails:
  assumes "n \<in> set (Use opt)" and "\<not> resolvesToPool (providersMap st) (heap st) n"
    and "Decode e config initOption = Some opt"
  shows "\<exists>err st'. ParseProxyGroup e config pm st = (Inl err, st')"
proof -
  obtain res st' where run: "ParseProxyGroup e config pm st = (res, st')" by fastforce
  show ?thesis
  proof (cases res)
    case (Inl err)
    with run show ?thesis by blast
  next
    case (Inr a)
    with run have ok: "ParseProxyGroup e config pm st = (Inr a, st')" by simp
    from ParseProxyGroup_InrD [OF ok]
    obtain opt0 rx providers st1 providers2 where
      dec0: "Decode e config initOption = Some opt0"
      and inl0: "inlineProxies e pm opt0 st = (Inr providers, st1)"
      and use0: "useProviders opt0 rx providers st1 = (Inr providers2, st')"
      by blast
    have o: "opt0 = opt" using dec0 assms(3) by simp
    note inl = inl0 [unfolded o] and use = use0 [unfolded o]
    have ne: "Use opt \<noteq> []" using assms(1) by auto
    with useProviders_InrD [OF use] obtain list where
      "getProviders (providersMap st1) opt rx (heap st1) = (Inr list, heap st')"
      by auto
    from getProviders_InrD [OF this ne] assms(1)
    have "resolvesToPool (providersMap st1) (heap st1) n" by blast
    with inlineProxies_keeps_unresolved [OF inl assms(2)] show ?thesis by simp
  qed
qed

subsection \<open>The errors of the steps\<close>

lemma newHealthCheck_InlD: "newHealthCheck ps opt = Inl err \<Longrightarrow> err = errMissHealthCheck"
  by (auto simp: newHealthCheck_def split: if_splits)


lemma getProxies_loop_InlD:
  "getProxies_loop m list ps = Inl err \<Longrightarrow> \<exists>name\<in>set list. err = errNotFound name"
  by (induction list arbitrary: ps) (auto split: option.splits)

lemma getProviders_loop_InlD:
  "getProviders_loop m opt rx names ps h = (Inl err, h') \<Longrightarrow>
   (\<exists>name\<in>set names. err = errNotFound name \<or> err = errCantContain name) \<or>
   err = errMissHealthCheck"
proof (induction names arbitrary: ps h)
  case Nil
  then show ?case by simp
next
  case (Cons name names)
  show ?case
  proof (cases "resolvesToPool m h name \<and> (\<exists>hc. newHealthCheck [] opt = Inr hc)")
    case True
    then obtain hc where hc: "newHealthCheck [] opt = Inr hc" by blast
    from True obtain p n u where p: "m name = Some p" "asProxySetProvider h p = Some (n, u)"
      by (blast elim: resolvesToPoolE)
    let ?h2 = "RegisterProvidersInUse
        (h @ [ProxyFilterProvider (name @ ''-in-'' @ Name opt) p hc rx]) p (length h)"
    from Cons.prems have "getProviders_loop m opt rx names (ps @ [length h]) ?h2 = (Inl err, h')"
      using p hc by (simp add: Let_def)
    from Cons.IH [OF this] show ?thesis by auto
  next
    case False
    with Cons.prems show ?thesis
      by (auto simp: resolvesToPool_def split: option.splits sum.splits
          dest: newHealthCheck_InlD)
  qed
qed

lemma compileFilter_InlD:
  "compileFilter e opt = Inl err \<Longrightarrow>
   \<exists>m. err = Wrapf (Name opt @ '': invalid filter regex: '' @ m) (Foreign m)"
  by (auto simp: compileFilter_def split: if_splits option.splits)

lemma dispatch_InlD:
  "dispatch e config opt providers = Inl err \<Longrightarrow>
   (\<exists>m. err = Foreign m \<and> Type opt = ''load-balance'') \<or>
   err = Wrapf (Name opt @ '' '' @ Error errType @ '': '' @ Type opt) errType"
  by (auto simp: dispatch_def Let_def split: if_splits option.splits)

lemma inlineProxies_errors:
  assumes "inlineProxies e pm opt st = (Inl err, st1)"
  shows "(\<exists>name. err = wrapName (Name opt) (errNotFound name)) \<or>
         err = wrapName (Name opt) errDuplicateProvider \<or>
         err = wrapName (Name opt) errMissHealthCheck \<or>
         (\<exists>m. err = wrapName (Name opt) (Foreign m))"
  using assms
  by (auto simp: inlineProxies_def Let_def getProxies_def
      split: if_splits sum.splits option.splits
      dest!: getProxies_loop_InlD newHealthCheck_InlD)

lemma ParseProxyGroup_InlD:
  assumes "ParseProxyGroup e config pm st = (Inl err, st')"
  shows "(st' = st \<and> err = errFormat \<and>
          (\<forall>opt. Decode e config initOption = Some opt \<longrightarrow> Type opt = [] \<or> Name opt = [])) \<or>
         (\<exists>opt. Decode e config initOption = Some opt \<and> Type opt \<noteq> [] \<and> Name opt \<noteq> [] \<and>
            (st' = st \<and> compileFilter e opt = Inl err \<or>
             (\<exists>rx. compileFilter e opt = Inr rx \<and>
                (st' = st \<and> Proxies opt = [] \<and> Use opt = [] \<and>
                 err = wrapName (Name opt) errMissProxy \<or>
                 (Proxies opt \<noteq> [] \<or> Use opt \<noteq> []) \<and>
                 (inlineProxies e pm opt st = (Inl err, st') \<or>
                  (\<exists>providers st1.
                     inlineProxies e pm opt st = (Inr providers, st1) \<and>
                     (useProviders opt rx providers st1 = (Inl err, st') \<or>
                      (\<exists>providers2.
                         useProviders opt rx providers st1 = (Inr providers2, st') \<and>
                         dispatch e config opt providers2 = Inl err))))))))"
proof (cases "Decode e config initOption")
  case None
  with assms show ?thesis by (simp add: ParseProxyGroup_def)
next
  case (Some opt)
  show ?thesis
  proof (cases "Type opt = [] \<or> Name opt = []")
    case True
    with assms Some show ?thesis by (auto simp: ParseProxyGroup_def)
  next
    case False
    show ?thesis
    proof (cases "compileFilter e opt")
      case (Inl err0)
      with assms Some False show ?thesis by (auto simp: ParseProxyGroup_def)
    next
      case (Inr rx)
      show ?thesis
      proof (cases "Proxies opt = [] \<and> Use opt = []")
        case True
        with assms Some False Inr show ?thesis by (auto simp: ParseProxyGroup_def)
      next
        case both: False
        then have some: "Proxies opt \<noteq> [] \<or> Use opt \<noteq> []" by simp
        from False have ty: "Type opt \<noteq> []" and nm: "Name opt \<noteq> []" by simp_all
        note steps = ParseProxyGroup_steps [OF Some ty nm Inr some, of pm st]
        obtain r1 st1 where i: "inlineProxies e pm opt st = (r1, st1)" by fastforce
        show ?thesis
        proof (cases r1)
          case (Inl err1)
          with assms i steps have "inlineProxies e pm opt st = (Inl err, st')" by simp
          with Some ty nm Inr some show ?thesis by blast
        next
          case r1: (Inr providers)
          obtain r2 st2 where u: "useProviders opt rx providers st1 = (r2, st2)" by fastforce
          show ?thesis
          proof (cases r2)
            case (Inl err2)
            with assms i r1 u steps have "useProviders opt rx providers st1 = (Inl err, st')"
              by simp
            with Some ty nm Inr some i r1 show ?thesis by blast
          next
            case r2: (Inr providers2)
            with assms i r1 u steps have "st2 = st'" "dispatch e config opt providers2 = Inl err"
              by simp_all
            with Some ty nm Inr some i r1 u r2 show ?thesis by blast
          qed
        qed
      qed
    qed
  qed
qed

lemma ParseProxyGroup_Inl_cases:
  assumes "ParseProxyGroup e config pm st = (Inl err, st')"
  obtains
    (format) "st' = st" and "err = errFormat"
      and "\<And>opt. Decode e config initOption = Some opt \<Longrightarrow> Type opt = [] \<or> Name opt = []"
  | (filter) opt where "Decode e config initOption = Some opt"
      and "Type opt \<noteq> []" and "Name opt \<noteq> []"
      and "st' = st" and "compileFilter e opt = Inl err"
  | (missing) opt rx where "Decode e config initOption = Some opt"
      and "Type opt \<noteq> []" and "Name opt \<noteq> []" and "compileFilter e opt = Inr rx"
      and "st' = st" and "Proxies opt = []" and "Use opt = []"
      and "err = wrapName (Name opt) errMissProxy"
  | (inline) opt rx where "Decode e config initOption = Some opt"
      and "Type opt \<noteq> []" and "Name opt \<noteq> []" and "compileFilter e opt = Inr rx"
      and "Proxies opt \<noteq> [] \<or> Use opt \<noteq> []"
      and "inlineProxies e pm opt st = (Inl err, st')"
  | (use) opt rx providers st1 where "Decode e config initOption = Some opt"
      and "Type opt \<noteq> []" and "Name opt \<noteq> []" and "compileFilter e opt = Inr rx"
      and "Proxies opt \<noteq> [] \<or> Use opt \<noteq> []"
      and "inlineProxies e pm opt st = (Inr providers, st1)"
      and "useProviders opt rx providers st1 = (Inl err, st')"
  | (dispatch) opt rx providers st1 providers2 where "Decode e config initOption = Some opt"
      and "Type opt \<noteq> []" and "Name opt \<noteq> []" and "compileFilter e opt = Inr rx"
      and "Proxies opt \<noteq> [] \<or> Use opt \<noteq> []"
      and "inlineProxies e pm opt st = (Inr providers, st1)"
      and "useProviders opt rx providers st1 = (Inr providers2, st')"
      and "dispatch e config opt providers2 = Inl err"
  using ParseProxyGroup_InlD [OF assms] by blast

subsection \<open>The registry\<close>

text \<open>
  The only write to the registry is the one of line 96, under a name that was free. The use
  step never writes to it, so the write stays whatever happens later.
\<close>

lemma ParseProxyGroup_registry:
  assumes "ParseProxyGroup e config pm st = (res, st')"
  shows "if inlineRegistered e config pm st
         then \<exists>opt ps hc. Decode e config initOption = Some opt \<and> Proxies opt \<noteq> [] \<and>
                providersMap st (Name opt) = None \<and>
                providersMap st' = (providersMap st)(Name opt \<mapsto> length (heap st)) \<and>
                deref (heap st') (length (heap st)) = Some (CompatibleProvider (Name opt) ps hc)
         else providersMap st' = providersMap st"
proof (cases "inlineRegistered e config pm st")
  case True
  then obtain opt rx providers where
    dec: "Decode e config initOption = Some opt" and ty: "Type opt \<noteq> []"
    and nm: "Name opt \<noteq> []" and ne: "Proxies opt \<noteq> []"
    and cf: "compileFilter e opt = Inr rx"
    and f: "fst (inlineProxies e pm opt st) = Inr providers"
    by (auto simp: inlineRegistered_def split: option.splits sum.splits)
  define st1 where "st1 = snd (inlineProxies e pm opt st)"
  have inl: "inlineProxies e pm opt st = (Inr providers, st1)"
    using f by (simp add: st1_def prod_eq_iff)
  from inlineProxies_InrD [OF inl] ne obtain ps hc where
    free: "providersMap st (Name opt) = None"
    and st1: "st1 = st\<lparr> heap := heap st @ [CompatibleProvider (Name opt) ps hc],
                        providersMap := (providersMap st)(Name opt \<mapsto> length (heap st)) \<rparr>"
    by blast
  obtain r2 st2 where use: "useProviders opt rx providers st1 = (r2, st2)" by fastforce
  have m2: "providersMap st2 = providersMap st1" and g2: "grown (heap st1) (heap st2)"
    using use
    by (auto simp: useProviders_def grown_refl split: if_splits sum.splits prod.splits
        dest: getProviders_grown)
  have st': "st' = st2"
    using assms use inl ParseProxyGroup_steps [OF dec ty nm cf, of pm st] ne
    by (cases r2) auto
  have lt: "length (heap st) < length (heap st1)" using st1 by simp
  have "asProxySetProvider (heap st1) (length (heap st)) = None"
    using st1 by (simp add: asProxySetProvider_None)
  with g2 lt have "heap st2 ! length (heap st) = heap st1 ! length (heap st)"
    by (simp add: grown_keeps)
  moreover have "length (heap st) < length (heap st2)"
    using lt g2 by (auto dest: grown_length)
  ultimately have "deref (heap st2) (length (heap st)) =
      Some (CompatibleProvider (Name opt) ps hc)"
    using st1 by (simp add: deref_def)
  with True dec ne free m2 st1 st' show ?thesis by auto
next
  case False
  have "providersMap st' = providersMap st"
  proof (cases res)
    case (Inr a)
    with assms have run: "ParseProxyGroup e config pm st = (Inr a, st')" by simp
    from ParseProxyGroup_InrD [OF run]
    obtain opt rx providers st1 providers2 where
      dec: "Decode e config initOption = Some opt" "Type opt \<noteq> []" "Name opt \<noteq> []"
      "compileFilter e opt = Inr rx"
      and inl: "inlineProxies e pm opt st = (Inr providers, st1)"
      by blast
    with False have "Proxies opt = []" by (auto simp: inlineRegistered_def)
    with ParseProxyGroup_result [OF run dec(1)] show ?thesis by blast
  next
    case (Inl err)
    with assms have run: "ParseProxyGroup e config pm st = (Inl err, st')" by simp
    from run show ?thesis
    proof (cases rule: ParseProxyGroup_Inl_cases)
      case (inline opt rx)
      from inlineProxies_InlD [OF inline(6)] show ?thesis by simp
    next
      case (use opt rx providers st1)
      from use False have "Proxies opt = []" by (auto simp: inlineRegistered_def)
      with use(6) have "st1 = st" by (simp add: inlineProxies_skip)
      with useProviders_InlD [OF use(7)] show ?thesis by simp
    next
      case (dispatch opt rx providers st1 providers2)
      from dispatch False have "Proxies opt = []" by (auto simp: inlineRegistered_def)
      with dispatch(6) have "st1 = st" by (simp add: inlineProxies_skip)
      with useProviders_InrD [OF dispatch(7)] show ?thesis by simp
    qed simp_all
  qed
  with False show ?thesis by simp
qed

lemmas err_defs =
  errFormat_def errDuplicateProvider_def errMissProxy_def errNotFound_def errCantContain_def
  errMissHealthCheck_def errType_def wrapName_def

text \<open>A group without inline endpoints never fails with the duplicate-name error.\<close>

lemma use_only_no_duplicate:
  assumes run: "ParseProxyGroup e config pm st = (Inl err, st')"
    and dec: "Decode e config initOption = Some opt" and none: "Proxies opt = []"
  shows "\<not> errors_Is err errDuplicateProvider"
  using run
proof (cases rule: ParseProxyGroup_Inl_cases)
  case format
  then show ?thesis by (simp add: err_defs)
next
  case (filter opt0)
  from compileFilter_InlD [OF filter(5)] show ?thesis
    by (auto simp: err_defs)
next
  case (missing opt0 rx)
  then show ?thesis by (simp add: err_defs)
next
  case (inline opt0 rx)
  from inlineProxies_InlD [OF inline(6)] have "Proxies opt0 \<noteq> []" by simp
  with inline(1) dec none show ?thesis by simp
next
  case (use opt0 rx providers st1)
  from useProviders_InlD [OF use(7)] obtain err0 where
    gp: "getProviders (providersMap st1) opt0 rx (heap st1) = (Inl err0, heap st')"
    and err: "err = wrapName (Name opt0) err0"
    by blast
  from gp have "(\<exists>name\<in>set (Use opt0). err0 = errNotFound name \<or> err0 = errCantContain name) \<or>
      err0 = errMissHealthCheck"
    unfolding getProviders_def by (rule getProviders_loop_InlD)
  with err show ?thesis by (auto simp: err_defs)
next
  case (dispatch opt0 rx providers st1 providers2)
  from dispatch_InlD [OF dispatch(8)] show ?thesis
    by (auto simp: err_defs)
qed

subsection \<open>The claims\<close>

text \<open>
  C4. A configuration of kind \<^verbatim>\<open>select\<close> or \<^verbatim>\<open>relay\<close> that is valid otherwise resolves,
  whatever its \<^verbatim>\<open>url\<close>, \<^verbatim>\<open>interval\<close> and \<^verbatim>\<open>lazy\<close> are (they may be absent, that is empty and
  zero). The call returns the selector or the relay of the configuration, holding the
  synthetic provider of the listed endpoints (if any are listed) followed by one derived
  provider per reference; these are all the providers the call builds. The synthetic
  provider holds the disabled policy over the endpoints and each derived provider holds the
  disabled policy over no endpoints: an empty URL, a zero interval and laziness on. That is
  the policy \<^verbatim>\<open>newHealthCheck\<close> returns for any endpoints.
\<close>

theorem select_relay_policy_disabled:
  assumes "Decode e config initOption = Some opt"
    and "Type opt = ''select'' \<or> Type opt = ''relay''"
    and "otherwiseValid e proxyMap st opt"
  shows "\<exists>a st'. ParseProxyGroup e config proxyMap st = (Inr a, st') \<and>
           a = (if Type opt = ''select'' then Selector opt (adapter_providers a)
                else Relay opt (adapter_providers a)) \<and>
           adapter_providers a =
             (if Proxies opt = [] then [] else [length (heap st)]) @
             [length (heap st) + (if Proxies opt = [] then 0 else 1)..<
              length (heap st) + (if Proxies opt = [] then 0 else 1) + length (Use opt)] \<and>
           adapter_providers a \<noteq> [] \<and>
           length (heap st') =
             length (heap st) + (if Proxies opt = [] then 0 else 1) + length (Use opt) \<and>
           (Proxies opt \<noteq> [] \<longrightarrow>
              providersMap st' (Name opt) = Some (length (heap st)) \<and>
              deref (heap st') (length (heap st)) =
                Some (CompatibleProvider (Name opt)
                        (map (\<lambda>name. the (proxyMap name)) (Proxies opt))
                        (NewHealthCheck (map (\<lambda>name. the (proxyMap name)) (Proxies opt))
                           [] 0 True))) \<and>
           (\<forall>i<length (Use opt).
              deref (heap st') (length (heap st) + (if Proxies opt = [] then 0 else 1) + i) =
                Some (ProxyFilterProvider (Use opt ! i @ ''-in-'' @ Name opt)
                        (the (providersMap st' (Use opt ! i)))
                        (NewHealthCheck [] [] 0 True)
                        (if Filter opt = [] then None else Some (Regexp (Filter opt))))) \<and>
           (\<forall>r. length (heap st) \<le> r \<and> r < length (heap st') \<longrightarrow>
              (\<exists>x hc. deref (heap st') r = Some x \<and> provider_hc x = Some hc \<and>
                      disabledPolicy hc)) \<and>
           (\<forall>ps. newHealthCheck ps opt = Inr (NewHealthCheck ps [] 0 True) \<and>
                 hc_url (NewHealthCheck ps [] 0 True) = [] \<and>
                 hc_interval (NewHealthCheck ps [] 0 True) = 0 \<and>
                 hc_lazy (NewHealthCheck ps [] 0 True)) \<and>
           (\<forall>r\<in>set (adapter_providers a).
              \<exists>x hc. deref (heap st') r = Some x \<and> provider_hc x = Some hc \<and>
                     disabledPolicy hc)"
proof -
  define n0 where "n0 = length (heap st)"
  define k where "k = (if Proxies opt = [] then 0 else 1::nat)"
  define ps0 where "ps0 = map (\<lambda>name. the (proxyMap name)) (Proxies opt)"
  define rx0 where "rx0 = (if Filter opt = [] then None else Some (Regexp (Filter opt)))"
  have ty: "Type opt \<noteq> []" using assms(2) by auto
  have hcs: "newHealthCheck ps opt = Inr (NewHealthCheck ps [] 0 True)" for ps
    using assms(2) by (rule newHealthCheck_disabled)
  have dis: "\<exists>a. dispatch e config opt providers = Inr a" for providers
    using assms(2) by (auto simp: dispatch_def)
  from ParseProxyGroup_succeeds [OF assms(1) ty assms(3)] hcs dis
  obtain a st' where run: "ParseProxyGroup e config proxyMap st = (Inr a, st')"
    by blast
  from assms(3) have some: "Proxies opt \<noteq> [] \<or> Use opt \<noteq> []"
    and flt: "Filter opt \<noteq> [] \<longrightarrow> regexp_Compile e (Filter opt) = None"
    and eps: "\<forall>name\<in>set (Proxies opt). proxyMap name \<noteq> None"
    by (simp_all add: otherwiseValid_def)
  have cf0: "compileFilter e opt = Inr rx0"
    unfolding rx0_def using flt by (rule compileFilter_ok)
  from ParseProxyGroup_result [OF run assms(1)]
  obtain rx where
    cf: "compileFilter e opt = Inr rx"
    and da: "dispatch e config opt (adapter_providers a) = Inr a"
    and P0: "Proxies opt = [] \<longrightarrow>
        providersMap st' = providersMap st \<and>
        adapter_providers a = [length (heap st)..<length (heap st) + length (Use opt)]"
    and P1: "Proxies opt \<noteq> [] \<longrightarrow>
        providersMap st (Name opt) = None \<and>
        providersMap st' = (providersMap st)(Name opt \<mapsto> length (heap st)) \<and>
        (\<exists>ps hc. getProxies proxyMap (Proxies opt) = Inr ps \<and> newHealthCheck ps opt = Inr hc \<and>
           NewCompatibleProvider_err e (Name opt) ps hc = None \<and>
           deref (heap st') (length (heap st)) = Some (CompatibleProvider (Name opt) ps hc)) \<and>
        adapter_providers a =
          (if Type opt = ''fallback''
           then [Suc (length (heap st))..<Suc (length (heap st)) + length (Use opt)] @
                [length (heap st)]
           else length (heap st) #
                [Suc (length (heap st))..<Suc (length (heap st)) + length (Use opt)])"
    and P2: "Use opt \<noteq> [] \<longrightarrow>
        (\<exists>hc. newHealthCheck [] opt = Inr hc \<and>
           (\<forall>i<length (Use opt).
              deref (heap st') (length (heap st) + (if Proxies opt = [] then 0 else 1) + i) =
                Some (ProxyFilterProvider (Use opt ! i @ ''-in-'' @ Name opt)
                        (the (providersMap st' (Use opt ! i))) hc rx) \<and>
              (\<exists>n u. asProxySetProvider (heap st') (the (providersMap st' (Use opt ! i))) =
                       Some (n, u) \<and>
                     length (heap st) + (if Proxies opt = [] then 0 else 1) + i \<in> set u)))"
    by blast
  have rx: "rx = rx0" using cf cf0 by simp
  have nf: "Type opt \<noteq> ''fallback''" using assms(2) by auto
  have kind: "a = (if Type opt = ''select'' then Selector opt (adapter_providers a)
                else Relay opt (adapter_providers a))"
    using da assms(2) by (auto simp: dispatch_def)
  have list: "adapter_providers a =
      (if Proxies opt = [] then [] else [n0]) @ [n0 + k..<n0 + k + length (Use opt)]"
  proof (cases "Proxies opt = []")
    case True
    with P0 show ?thesis by (simp add: n0_def k_def)
  next
    case False
    with P1 nf have "adapter_providers a = length (heap st) #
        [Suc (length (heap st))..<Suc (length (heap st)) + length (Use opt)]"
      by simp
    with False show ?thesis by (simp add: n0_def k_def)
  qed
  have nonempty: "adapter_providers a \<noteq> []"
  proof (cases "Proxies opt = []")
    case True
    with some have "Use opt \<noteq> []" by simp
    then have "[n0 + k..<n0 + k + length (Use opt)] \<noteq> []" by simp
    with list show ?thesis by simp
  next
    case False
    with list show ?thesis by simp
  qed
  have len: "length (heap st') = n0 + k + length (Use opt)"
    using ParseProxyGroup_heap_length [OF run assms(1)] by (simp add: n0_def k_def)
  have syn: "providersMap st' (Name opt) = Some n0 \<and>
      deref (heap st') n0 = Some (CompatibleProvider (Name opt) ps0 (NewHealthCheck ps0 [] 0 True))"
    if ne: "Proxies opt \<noteq> []"
  proof -
    from ne P1 obtain ps hc where m: "providersMap st' = (providersMap st)(Name opt \<mapsto> n0)"
      and gp: "getProxies proxyMap (Proxies opt) = Inr ps"
      and hc: "newHealthCheck ps opt = Inr hc"
      and at: "deref (heap st') n0 = Some (CompatibleProvider (Name opt) ps hc)"
      unfolding n0_def by blast
    have "getProxies proxyMap (Proxies opt) = Inr ps0"
      unfolding ps0_def using eps by (rule getProxies_all)
    with gp have "ps = ps0" by simp
    moreover from hc hcs [of ps] have "hc = NewHealthCheck ps [] 0 True" by simp
    ultimately show ?thesis using m at by simp
  qed
  have der: "deref (heap st') (n0 + k + i) =
      Some (ProxyFilterProvider (Use opt ! i @ ''-in-'' @ Name opt)
              (the (providersMap st' (Use opt ! i))) (NewHealthCheck [] [] 0 True) rx0)"
    if i: "i < length (Use opt)" for i
  proof -
    from i have "Use opt \<noteq> []" by auto
    with P2 obtain hc where hc: "newHealthCheck [] opt = Inr hc"
      and at: "\<forall>i<length (Use opt).
              deref (heap st') (n0 + k + i) =
                Some (ProxyFilterProvider (Use opt ! i @ ''-in-'' @ Name opt)
                        (the (providersMap st' (Use opt ! i))) hc rx)"
      unfolding n0_def k_def by blast
    from hc hcs [of "[]"] have "hc = NewHealthCheck [] [] 0 True" by simp
    with at i rx show ?thesis by simp
  qed
  have built: "\<exists>x hc. deref (heap st') r = Some x \<and> provider_hc x = Some hc \<and> disabledPolicy hc"
    if r: "n0 \<le> r" "r < length (heap st')" for r
  proof (cases "Proxies opt \<noteq> [] \<and> r = n0")
    case True
    with syn show ?thesis by (auto simp: disabledPolicy_NewHealthCheck)
  next
    case False
    with r have "n0 + k \<le> r" by (auto simp: k_def)
    moreover from r len have "r - (n0 + k) < length (Use opt)"
      using \<open>n0 + k \<le> r\<close> by simp
    ultimately have "deref (heap st') r =
      Some (ProxyFilterProvider (Use opt ! (r - (n0 + k)) @ ''-in-'' @ Name opt)
              (the (providersMap st' (Use opt ! (r - (n0 + k))))) (NewHealthCheck [] [] 0 True) rx0)"
      using der [of "r - (n0 + k)"] by simp
    then show ?thesis by (simp add: disabledPolicy_NewHealthCheck)
  qed
  have held: "\<forall>r\<in>set (adapter_providers a).
      \<exists>x hc. deref (heap st') r = Some x \<and> provider_hc x = Some hc \<and> disabledPolicy hc"
  proof
    fix r assume "r \<in> set (adapter_providers a)"
    with list have "n0 \<le> r \<and> r < n0 + k + length (Use opt)"
      by (auto simp: k_def split: if_splits)
    with len built show "\<exists>x hc. deref (heap st') r = Some x \<and> provider_hc x = Some hc \<and>
        disabledPolicy hc"
      by simp
  qed
  have pol: "\<forall>ps. newHealthCheck ps opt = Inr (NewHealthCheck ps [] 0 True) \<and>
                 hc_url (NewHealthCheck ps [] 0 True) = [] \<and>
                 hc_interval (NewHealthCheck ps [] 0 True) = 0 \<and>
                 hc_lazy (NewHealthCheck ps [] 0 True)"
    using hcs by (simp add: NewHealthCheck_def)
  have "ParseProxyGroup e config proxyMap st = (Inr a, st') \<and>
           a = (if Type opt = ''select'' then Selector opt (adapter_providers a)
                else Relay opt (adapter_providers a)) \<and>
           adapter_providers a =
             (if Proxies opt = [] then [] else [n0]) @ [n0 + k..<n0 + k + length (Use opt)] \<and>
           adapter_providers a \<noteq> [] \<and>
           length (heap st') = n0 + k + length (Use opt) \<and>
           (Proxies opt \<noteq> [] \<longrightarrow>
              providersMap st' (Name opt) = Some n0 \<and>
              deref (heap st') n0 =
                Some (CompatibleProvider (Name opt) ps0 (NewHealthCheck ps0 [] 0 True))) \<and>
           (\<forall>i<length (Use opt).
              deref (heap st') (n0 + k + i) =
                Some (ProxyFilterProvider (Use opt ! i @ ''-in-'' @ Name opt)
                        (the (providersMap st' (Use opt ! i)))
                        (NewHealthCheck [] [] 0 True) rx0)) \<and>
           (\<forall>r. n0 \<le> r \<and> r < length (heap st') \<longrightarrow>
              (\<exists>x hc. deref (heap st') r = Some x \<and> provider_hc x = Some hc \<and>
                      disabledPolicy hc)) \<and>
           (\<forall>ps. newHealthCheck ps opt = Inr (NewHealthCheck ps [] 0 True) \<and>
                 hc_url (NewHealthCheck ps [] 0 True) = [] \<and>
                 hc_interval (NewHealthCheck ps [] 0 True) = 0 \<and>
                 hc_lazy (NewHealthCheck ps [] 0 True)) \<and>
           (\<forall>r\<in>set (adapter_providers a).
              \<exists>x hc. deref (heap st') r = Some x \<and> provider_hc x = Some hc \<and>
                     disabledPolicy hc)"
    using run kind list nonempty len syn der built pol held
    by (intro conjI impI allI) (assumption | blast)+
  then show ?thesis
    unfolding n0_def k_def ps0_def rx0_def by (intro exI)
qed

lemmas sample_defs =
  sampleEnv_def sampleOption_def sampleProbed_def sampleProxies_def sampleState_def
  initOption_def

lemmas run_defs =
  ParseProxyGroup_def compileFilter_def inlineProxies_def useProviders_def dispatch_def
  getProviders_def getProxies_def newHealthCheck_def NewHealthCheck_def
  asProxySetProvider_def deref_def RegisterProvidersInUse_def wrapName_def Let_def

theorem select_relay_policy_disabled_witness:
  "Decode sampleEnv (sampleOption ''g'' ''relay'' [''A'', ''B''] [''P'']) initOption =
     Some (sampleOption ''g'' ''relay'' [''A'', ''B''] [''P'']) \<and>
   otherwiseValid sampleEnv sampleProxies sampleState
     (sampleOption ''g'' ''relay'' [''A'', ''B''] [''P'']) \<and>
   URL (sampleOption ''g'' ''relay'' [''A'', ''B''] [''P'']) = [] \<and>
   Interval (sampleOption ''g'' ''relay'' [''A'', ''B''] [''P'']) = 0 \<and>
   (\<exists>st'. ParseProxyGroup sampleEnv (sampleOption ''g'' ''relay'' [''A'', ''B''] [''P''])
               sampleProxies sampleState =
             (Inr (Relay (sampleOption ''g'' ''relay'' [''A'', ''B''] [''P'']) [2, 3]), st') \<and>
          providersMap st' ''g'' = Some 2 \<and>
          deref (heap st') 2 =
            Some (CompatibleProvider ''g'' [ProxyHandle 0, ProxyHandle 1]
                    (NewHealthCheck [ProxyHandle 0, ProxyHandle 1] [] 0 True)) \<and>
          length (heap st') = 4 \<and>
          (\<exists>x hc. deref (heap st') 2 = Some x \<and> provider_hc x = Some hc \<and>
                  disabledPolicy hc) \<and>
          (\<exists>x hc. deref (heap st') 3 = Some x \<and> provider_hc x = Some hc \<and>
                  disabledPolicy hc))"
proof -
  let ?opt = "sampleOption ''g'' ''relay'' [''A'', ''B''] [''P'']"
  have d: "Decode sampleEnv ?opt initOption = Some ?opt"
    by (simp add: sample_defs)
  have t: "Type ?opt = ''select'' \<or> Type ?opt = ''relay''"
    by (simp add: sample_defs)
  have v: "otherwiseValid sampleEnv sampleProxies sampleState ?opt"
    by (simp add: otherwiseValid_def resolvesToPool_def asProxySetProvider_def deref_def
        newHealthCheck_def sample_defs)
  have u1: "URL ?opt = []" and u2: "Interval ?opt = 0"
    by (simp_all add: sample_defs)
  from select_relay_policy_disabled [OF d t v]
  obtain a st' where
    run: "ParseProxyGroup sampleEnv ?opt sampleProxies sampleState = (Inr a, st')"
    and kind: "a = (if Type ?opt = ''select'' then Selector ?opt (adapter_providers a)
                else Relay ?opt (adapter_providers a))"
    and list: "adapter_providers a =
             (if Proxies ?opt = [] then [] else [length (heap sampleState)]) @
             [length (heap sampleState) + (if Proxies ?opt = [] then 0 else 1)..<
              length (heap sampleState) + (if Proxies ?opt = [] then 0 else 1) +
              length (Use ?opt)]"
    and len: "length (heap st') =
             length (heap sampleState) + (if Proxies ?opt = [] then 0 else 1) +
             length (Use ?opt)"
    and syn: "Proxies ?opt \<noteq> [] \<longrightarrow>
              providersMap st' (Name ?opt) = Some (length (heap sampleState)) \<and>
              deref (heap st') (length (heap sampleState)) =
                Some (CompatibleProvider (Name ?opt)
                        (map (\<lambda>name. the (sampleProxies name)) (Proxies ?opt))
                        (NewHealthCheck (map (\<lambda>name. the (sampleProxies name)) (Proxies ?opt))
                           [] 0 True))"
    and held: "\<forall>r\<in>set (adapter_providers a).
              \<exists>x hc. deref (heap st') r = Some x \<and> provider_hc x = Some hc \<and>
                     disabledPolicy hc"
    by (elim exE conjE) (rule that; assumption)
  have l: "adapter_providers a = [2, 3]"
    using list by (simp add: sample_defs upt_rec)
  have k: "a = Relay ?opt [2, 3]"
    using kind l by (simp add: sample_defs)
  have s: "providersMap st' ''g'' = Some 2 \<and>
      deref (heap st') 2 =
        Some (CompatibleProvider ''g'' [ProxyHandle 0, ProxyHandle 1]
                (NewHealthCheck [ProxyHandle 0, ProxyHandle 1] [] 0 True))"
    using syn by (simp add: sample_defs numeral_2_eq_2)
  have n: "length (heap st') = 4"
    using len by (simp add: sample_defs)
  have "ParseProxyGroup sampleEnv ?opt sampleProxies sampleState =
          (Inr (Relay ?opt [2, 3]), st') \<and>
        providersMap st' ''g'' = Some 2 \<and>
        deref (heap st') 2 =
          Some (CompatibleProvider ''g'' [ProxyHandle 0, ProxyHandle 1]
                  (NewHealthCheck [ProxyHandle 0, ProxyHandle 1] [] 0 True)) \<and>
        length (heap st') = 4 \<and>
        (\<exists>x hc. deref (heap st') 2 = Some x \<and> provider_hc x = Some hc \<and> disabledPolicy hc) \<and>
        (\<exists>x hc. deref (heap st') 3 = Some x \<and> provider_hc x = Some hc \<and> disabledPolicy hc)"
    using run k s n held unfolding l by simp
  then have ex: "\<exists>st'. ParseProxyGroup sampleEnv ?opt sampleProxies sampleState =
          (Inr (Relay ?opt [2, 3]), st') \<and>
        providersMap st' ''g'' = Some 2 \<and>
        deref (heap st') 2 =
          Some (CompatibleProvider ''g'' [ProxyHandle 0, ProxyHandle 1]
                  (NewHealthCheck [ProxyHandle 0, ProxyHandle 1] [] 0 True)) \<and>
        length (heap st') = 4 \<and>
        (\<exists>x hc. deref (heap st') 2 = Some x \<and> provider_hc x = Some hc \<and> disabledPolicy hc) \<and>
        (\<exists>x hc. deref (heap st') 3 = Some x \<and> provider_hc x = Some hc \<and> disabledPolicy hc)"
    by (rule exI)
  show ?thesis by (intro conjI d v u1 u2 ex)
qed



text \<open>
  C3. When a configuration that lists both endpoints and references resolves, the adapter
  holds the synthetic provider of the endpoints (the registry's new entry under the group's
  name) and one derived provider per reference, in the order of \<^verbatim>\<open>use\<close>: for the kind
  \<^verbatim>\<open>fallback\<close> the derived providers come first and the synthetic provider last, for every
  other kind the synthetic provider comes first and the derived providers follow.
\<close>

theorem fallback_orders_references_first:
  assumes "ParseProxyGroup e config proxyMap st = (Inr a, st')"
    and "Decode e config initOption = Some opt"
    and "Proxies opt \<noteq> []" and "Use opt \<noteq> []"
  shows "\<exists>synthetic derived.
           providersMap st' (Name opt) = Some synthetic \<and>
           (\<exists>ps hc. deref (heap st') synthetic = Some (CompatibleProvider (Name opt) ps hc)) \<and>
           length derived = length (Use opt) \<and>
           (\<forall>i<length (Use opt). \<exists>hc rx.
              deref (heap st') (derived ! i) =
                Some (ProxyFilterProvider (Use opt ! i @ ''-in-'' @ Name opt)
                        (the (providersMap st' (Use opt ! i))) hc rx)) \<and>
           adapter_providers a =
             (if Type opt = ''fallback'' then derived @ [synthetic] else synthetic # derived)"
proof -
  define n0 where "n0 = length (heap st)"
  define derived where "derived = [Suc n0..<Suc n0 + length (Use opt)]"
  from ParseProxyGroup_result [OF assms(1,2)] assms(3,4)
  obtain rx hc where
    m: "providersMap st' = (providersMap st)(Name opt \<mapsto> n0)"
    and syn: "\<exists>ps hc. deref (heap st') n0 = Some (CompatibleProvider (Name opt) ps hc)"
    and ap: "adapter_providers a =
          (if Type opt = ''fallback'' then derived @ [n0] else n0 # derived)"
    and der: "\<forall>i<length (Use opt).
              deref (heap st') (n0 + (if Proxies opt = [] then 0 else 1) + i) =
                Some (ProxyFilterProvider (Use opt ! i @ ''-in-'' @ Name opt)
                        (the (providersMap st' (Use opt ! i))) hc rx)"
    unfolding n0_def derived_def by blast
  have "\<exists>hc rx. deref (heap st') (derived ! i) =
                Some (ProxyFilterProvider (Use opt ! i @ ''-in-'' @ Name opt)
                        (the (providersMap st' (Use opt ! i))) hc rx)"
    if "i < length (Use opt)" for i
  proof -
    from that have "[Suc n0..<Suc n0 + length (Use opt)] ! i = Suc n0 + i"
      by (intro nth_upt) simp
    then have "derived ! i = n0 + (if Proxies opt = [] then 0 else 1) + i"
      using assms(3) by (simp only: derived_def) simp
    with der that show ?thesis by auto
  qed
  moreover have "length derived = length (Use opt)"
    by (simp only: derived_def length_upt add_diff_cancel_left')
  moreover have "providersMap st' (Name opt) = Some n0" using m by simp
  ultimately show ?thesis using syn ap by blast
qed

theorem fallback_orders_references_first_witness:
  "(\<exists>synthetic derived.
      providersMap (snd (ParseProxyGroup sampleEnv
          (sampleProbed ''g'' ''fallback'' [''A'', ''B''] [''P'']) sampleProxies sampleState))
        ''g'' = Some synthetic \<and>
      length derived = 1 \<and> [3, 2] = derived @ [synthetic]) \<and>
   (\<exists>synthetic derived.
      providersMap (snd (ParseProxyGroup sampleEnv
          (sampleProbed ''g'' ''url-test'' [''A'', ''B''] [''P'']) sampleProxies sampleState))
        ''g'' = Some synthetic \<and>
      length derived = 1 \<and> [2, 3] = synthetic # derived)"
proof -
  let ?fb = "sampleProbed ''g'' ''fallback'' [''A'', ''B''] [''P'']"
  let ?ut = "sampleProbed ''g'' ''url-test'' [''A'', ''B''] [''P'']"
  have run1: "ParseProxyGroup sampleEnv ?fb sampleProxies sampleState =
      (Inr (Fallback ?fb [3, 2]), snd (ParseProxyGroup sampleEnv ?fb sampleProxies sampleState))"
    by (simp add: run_defs sample_defs)
  have run2: "ParseProxyGroup sampleEnv ?ut sampleProxies sampleState =
      (Inr (URLTest ?ut [2, 3] ()), snd (ParseProxyGroup sampleEnv ?ut sampleProxies sampleState))"
    by (simp add: run_defs sample_defs)
  have d1: "Decode sampleEnv ?fb initOption = Some ?fb"
    and d2: "Decode sampleEnv ?ut initOption = Some ?ut"
    by (simp_all add: sample_defs)
  have p1: "Proxies ?fb \<noteq> []" "Use ?fb \<noteq> []" and p2: "Proxies ?ut \<noteq> []" "Use ?ut \<noteq> []"
    by (simp_all add: sample_defs)
  have n: "Name ?fb = ''g''" "Name ?ut = ''g''" "Type ?fb = ''fallback''"
    "Type ?ut \<noteq> ''fallback''" "length (Use ?fb) = 1" "length (Use ?ut) = 1"
    by (simp_all add: sample_defs)
  from fallback_orders_references_first [OF run1 d1 p1]
  obtain s1 dv1 where
    "providersMap (snd (ParseProxyGroup sampleEnv ?fb sampleProxies sampleState)) (Name ?fb) =
       Some s1"
    "length dv1 = length (Use ?fb)"
    "adapter_providers (Fallback ?fb [3, 2] :: unit adapter) =
       (if Type ?fb = ''fallback'' then dv1 @ [s1] else s1 # dv1)"
    by (elim exE conjE) (rule that; assumption)
  then have one:
    "providersMap (snd (ParseProxyGroup sampleEnv ?fb sampleProxies sampleState)) ''g'' =
       Some s1 \<and> length dv1 = 1 \<and> [3, 2] = dv1 @ [s1]"
    unfolding n by simp
  from fallback_orders_references_first [OF run2 d2 p2]
  obtain s2 dv2 where
    "providersMap (snd (ParseProxyGroup sampleEnv ?ut sampleProxies sampleState)) (Name ?ut) =
       Some s2"
    "length dv2 = length (Use ?ut)"
    "adapter_providers (URLTest ?ut [2, 3] ()) =
       (if Type ?ut = ''fallback'' then dv2 @ [s2] else s2 # dv2)"
    by (elim exE conjE) (rule that; assumption)
  then have two:
    "providersMap (snd (ParseProxyGroup sampleEnv ?ut sampleProxies sampleState)) ''g'' =
       Some s2 \<and> length dv2 = 1 \<and> [2, 3] = s2 # dv2"
    unfolding n using n(4) by simp
  from one two show ?thesis by blast
qed

text \<open>
  C10. \<^verbatim>\<open>ParseProxyGroup\<close> never removes or overwrites an entry of the registry: whatever the
  call returns, every entry of the registry before the call is in the registry after it,
  with the same value. A successful call of a group with inline endpoints adds one entry, the
  synthetic provider under the group's name, which was free. A call of a group without
  inline endpoints leaves the registry as it was, so it adds no entry under the group's name,
  and it never fails with the duplicate-name error.
\<close>

theorem registry_entries_are_kept:
  assumes "ParseProxyGroup e config proxyMap st = (res, st')"
  shows "map_le (providersMap st) (providersMap st') \<and>
         (\<forall>opt a. Decode e config initOption = Some opt \<and> res = Inr a \<and> Proxies opt \<noteq> [] \<longrightarrow>
            providersMap st (Name opt) = None \<and>
            providersMap st' = (providersMap st)(Name opt \<mapsto> length (heap st)) \<and>
            dom (providersMap st') = insert (Name opt) (dom (providersMap st)) \<and>
            (\<exists>ps hc. deref (heap st') (length (heap st)) =
                       Some (CompatibleProvider (Name opt) ps hc))) \<and>
         (\<forall>opt. Decode e config initOption = Some opt \<and> Proxies opt = [] \<longrightarrow>
            providersMap st' = providersMap st \<and>
            (\<forall>err. res = Inl err \<longrightarrow> \<not> errors_Is err errDuplicateProvider))"
proof -
  note reg = ParseProxyGroup_registry [OF assms]
  have keep: "map_le (providersMap st) (providersMap st')"
  proof (cases "inlineRegistered e config proxyMap st")
    case True
    with reg have "\<exists>opt ps hc. Decode e config initOption = Some opt \<and> Proxies opt \<noteq> [] \<and>
                providersMap st (Name opt) = None \<and>
                providersMap st' = (providersMap st)(Name opt \<mapsto> length (heap st)) \<and>
                deref (heap st') (length (heap st)) = Some (CompatibleProvider (Name opt) ps hc)"
      by (simp only: if_True)
    then obtain opt :: GroupCommonOption where "providersMap st (Name opt) = None"
      "providersMap st' = (providersMap st)(Name opt \<mapsto> length (heap st))"
      by (elim exE conjE) (rule that; assumption)
    then show ?thesis by (auto simp: map_le_def)
  next
    case False
    with reg show ?thesis by simp
  qed
  have added: "providersMap st (Name opt) = None \<and>
            providersMap st' = (providersMap st)(Name opt \<mapsto> length (heap st)) \<and>
            dom (providersMap st') = insert (Name opt) (dom (providersMap st)) \<and>
            (\<exists>ps hc. deref (heap st') (length (heap st)) =
                       Some (CompatibleProvider (Name opt) ps hc))"
    if "Decode e config initOption = Some opt" "res = Inr a" "Proxies opt \<noteq> []" for opt a
  proof -
    from assms that have run: "ParseProxyGroup e config proxyMap st = (Inr a, st')" by simp
    from ParseProxyGroup_result [OF run that(1)] that(3)
    have "providersMap st (Name opt) = None"
      "providersMap st' = (providersMap st)(Name opt \<mapsto> length (heap st))"
      "\<exists>ps hc. deref (heap st') (length (heap st)) =
                       Some (CompatibleProvider (Name opt) ps hc)"
      by blast+
    then show ?thesis by simp
  qed
  have use_only: "providersMap st' = providersMap st \<and>
            (\<forall>err. res = Inl err \<longrightarrow> \<not> errors_Is err errDuplicateProvider)"
    if "Decode e config initOption = Some opt" "Proxies opt = []" for opt
  proof -
    from that have "\<not> inlineRegistered e config proxyMap st"
      by (simp add: inlineRegistered_def)
    with reg have "providersMap st' = providersMap st" by simp
    moreover have "\<not> errors_Is err errDuplicateProvider" if "res = Inl err" for err
      using assms that \<open>Decode e config initOption = Some opt\<close> \<open>Proxies opt = []\<close>
      by (auto dest: use_only_no_duplicate)
    ultimately show ?thesis by blast
  qed
  from keep added use_only show ?thesis by blast
qed

theorem registry_entries_are_kept_witness:
  "map_le (providersMap sampleState)
     (providersMap (snd (ParseProxyGroup sampleEnv
        (sampleProbed ''g'' ''fallback'' [''A'', ''B''] [''P'']) sampleProxies sampleState))) \<and>
   providersMap (snd (ParseProxyGroup sampleEnv
        (sampleProbed ''g'' ''fallback'' [''A'', ''B''] [''P'']) sampleProxies sampleState)) =
     (providersMap sampleState)(''g'' \<mapsto> 2) \<and>
   fst (ParseProxyGroup sampleEnv (sampleProbed ''P'' ''url-test'' [] [''P''])
        sampleProxies sampleState) =
     Inr (URLTest (sampleProbed ''P'' ''url-test'' [] [''P'']) [2] ()) \<and>
   providersMap (snd (ParseProxyGroup sampleEnv (sampleProbed ''P'' ''url-test'' [] [''P''])
        sampleProxies sampleState)) = providersMap sampleState"
proof -
  let ?fb = "sampleProbed ''g'' ''fallback'' [''A'', ''B''] [''P'']"
  let ?uo = "sampleProbed ''P'' ''url-test'' [] [''P'']"
  have run1: "ParseProxyGroup sampleEnv ?fb sampleProxies sampleState =
      (Inr (Fallback ?fb [3, 2]), snd (ParseProxyGroup sampleEnv ?fb sampleProxies sampleState))"
    by (simp add: run_defs sample_defs)
  have run2: "ParseProxyGroup sampleEnv ?uo sampleProxies sampleState =
      (Inr (URLTest ?uo [2] ()), snd (ParseProxyGroup sampleEnv ?uo sampleProxies sampleState))"
    by (simp add: run_defs sample_defs)
  have d1: "Decode sampleEnv ?fb initOption = Some ?fb \<and>
            Inr (Fallback ?fb [3, 2]) = Inr (Fallback ?fb [3, 2] :: unit adapter) \<and>
            Proxies ?fb \<noteq> []"
    and d2: "Decode sampleEnv ?uo initOption = Some ?uo \<and> Proxies ?uo = []"
    by (simp_all add: sample_defs)
  have n: "Name ?fb = ''g''" "length (heap sampleState) = 2"
    by (simp_all add: sample_defs)
  note k1 = registry_entries_are_kept [OF run1]
  note k2 = registry_entries_are_kept [OF run2]
  have a: "map_le (providersMap sampleState)
       (providersMap (snd (ParseProxyGroup sampleEnv ?fb sampleProxies sampleState)))"
    using k1 by (rule conjunct1)
  have b: "providersMap (snd (ParseProxyGroup sampleEnv ?fb sampleProxies sampleState)) =
       (providersMap sampleState)(Name ?fb \<mapsto> length (heap sampleState))"
    using k1 [THEN conjunct2, THEN conjunct1, rule_format, OF d1] by (elim conjE)
  have b': "providersMap (snd (ParseProxyGroup sampleEnv ?fb sampleProxies sampleState)) =
       (providersMap sampleState)(''g'' \<mapsto> 2)"
    using b unfolding n .
  have two: "providersMap (snd (ParseProxyGroup sampleEnv ?uo sampleProxies sampleState)) =
       providersMap sampleState"
    using k2 [THEN conjunct2, THEN conjunct2, rule_format, OF d2] by (elim conjE)
  from run2 have f: "fst (ParseProxyGroup sampleEnv ?uo sampleProxies sampleState) =
      Inr (URLTest ?uo [2] ())"
    by (simp add: prod_eq_iff)
  show ?thesis by (intro conjI a b' f two)
qed




text \<open>
  C2, as the code has it. An error of \<^verbatim>\<open>ParseProxyGroup\<close> is one of three. The format error
  is returned bare, without the group's name, exactly when decoding fails or leaves the name
  or the kind empty. The error of the load-balance constructor is passed on as it is. Every
  other error has a message that starts with the group's name: the name and a colon, or, for
  an unknown kind, the name followed by \<^verbatim>\<open>unsupported type\<close> and the kind.
\<close>

theorem errors_name_the_group:
  assumes "ParseProxyGroup e config proxyMap st = (Inl err, st')"
  shows "(err = errFormat \<and> Error err = ''format error'' \<and>
          (\<forall>opt. Decode e config initOption = Some opt \<longrightarrow> Type opt = [] \<or> Name opt = [])) \<or>
         (\<exists>opt. Decode e config initOption = Some opt \<and> Type opt \<noteq> [] \<and> Name opt \<noteq> [] \<and>
            ((\<exists>m. err = Foreign m \<and> Type opt = ''load-balance'') \<or>
             prefix (Name opt @ '': '') (Error err) \<or>
             Error err = Name opt @ '' unsupported type: '' @ Type opt))"
  using assms
proof (cases rule: ParseProxyGroup_Inl_cases)
  case format
  then show ?thesis by (simp add: errFormat_def)
next
  case (filter opt)
  from compileFilter_InlD [OF filter(5)] have "prefix (Name opt @ '': '') (Error err)"
    by auto
  with filter show ?thesis by blast
next
  case (missing opt rx)
  then have "prefix (Name opt @ '': '') (Error err)" by (simp add: wrapName_def)
  with missing show ?thesis by blast
next
  case (inline opt rx)
  from inlineProxies_InlD [OF inline(6)] have "prefix (Name opt @ '': '') (Error err)"
    by (auto simp: wrapName_def)
  with inline show ?thesis by blast
next
  case (use opt rx providers st1)
  from useProviders_InlD [OF use(7)] have "prefix (Name opt @ '': '') (Error err)"
    by (auto simp: wrapName_def)
  with use show ?thesis by blast
next
  case (dispatch opt rx providers st1 providers2)
  from dispatch_InlD [OF dispatch(8)]
  have "(\<exists>m. err = Foreign m \<and> Type opt = ''load-balance'') \<or>
        Error err = Name opt @ '' unsupported type: '' @ Type opt"
    by (auto simp: errType_def)
  with dispatch show ?thesis by blast
qed

theorem errors_name_the_group_witness:
  "fst (ParseProxyGroup sampleEnv (sampleOption ''g'' ''url-test'' [''A''] [])
        sampleProxies sampleState) = Inl (wrapName ''g'' errMissHealthCheck) \<and>
   Error (wrapName ''g'' errMissHealthCheck) = ''g: `url` or `interval` missing'' \<and>
   prefix ''g: '' (Error (wrapName ''g'' errMissHealthCheck))"
proof -
  let ?ut = "sampleOption ''g'' ''url-test'' [''A''] []"
  have run: "ParseProxyGroup sampleEnv ?ut sampleProxies sampleState =
      (Inl (wrapName ''g'' errMissHealthCheck),
       snd (ParseProxyGroup sampleEnv ?ut sampleProxies sampleState))"
    by (simp add: run_defs sample_defs err_defs)
  have d: "Decode sampleEnv ?ut initOption = Some ?ut" "Type ?ut = ''url-test''"
    "Name ?ut = ''g''"
    by (simp_all add: sample_defs)
  have nf: "wrapName ''g'' errMissHealthCheck \<noteq> errFormat"
    "\<And>m. wrapName ''g'' errMissHealthCheck \<noteq> Foreign m"
    "Error (wrapName ''g'' errMissHealthCheck) \<noteq> ''g'' @ '' unsupported type: '' @ ''url-test''"
    by (simp_all add: err_defs)
  from errors_name_the_group [OF run] d nf
  have "prefix (''g'' @ '': '') (Error (wrapName ''g'' errMissHealthCheck))"
    by auto
  moreover from run have "fst (ParseProxyGroup sampleEnv ?ut sampleProxies sampleState) =
      Inl (wrapName ''g'' errMissHealthCheck)"
    by (simp add: prod_eq_iff)
  moreover have "Error (wrapName ''g'' errMissHealthCheck) = ''g: `url` or `interval` missing''"
    by (simp add: err_defs)
  ultimately show ?thesis by simp
qed

theorem format_error_counterexample:
  "Name (sampleOption ''g'' [] [''A''] []) = ''g'' \<and>
   fst (ParseProxyGroup sampleEnv (sampleOption ''g'' [] [''A''] [])
        sampleProxies sampleState) = Inl errFormat \<and>
   Error errFormat = ''format error'' \<and>
   \<not> prefix ''g'' (Error errFormat)"
  by (simp add: run_defs sample_defs err_defs)







text \<open>
  C6, as the code has it. Take a configuration that lists inline endpoints and gets as far
  as the duplicate-name guard: it decodes with a name and a kind, its filter is empty or
  compiles, and its endpoints are all in the endpoint registry. If the provider registry
  holds an entry under the group's name, the call fails with the duplicate-provider error,
  prefixed with the name, and changes nothing. If the name is free, and the policy and the
  synthetic provider can be built, the synthetic provider is registered under the group's
  name, whatever the rest of the call returns.
\<close>

theorem duplicate_name_guard:
  assumes "Decode e config initOption = Some opt"
    and "Type opt \<noteq> []" and "Name opt \<noteq> []"
    and "Filter opt \<noteq> [] \<longrightarrow> regexp_Compile e (Filter opt) = None"
    and "Proxies opt \<noteq> []"
    and "getProxies proxyMap (Proxies opt) = Inr ps"
  shows "(providersMap st (Name opt) \<noteq> None \<longrightarrow>
            ParseProxyGroup e config proxyMap st =
              (Inl (wrapName (Name opt) errDuplicateProvider), st)) \<and>
         (providersMap st (Name opt) = None \<and> newHealthCheck ps opt = Inr hc \<and>
          NewCompatibleProvider_err e (Name opt) ps hc = None \<longrightarrow>
            providersMap (snd (ParseProxyGroup e config proxyMap st)) =
              (providersMap st)(Name opt \<mapsto> length (heap st)) \<and>
            deref (heap (snd (ParseProxyGroup e config proxyMap st))) (length (heap st)) =
              Some (CompatibleProvider (Name opt) ps hc))"
proof -
  have some: "Proxies opt \<noteq> [] \<or> Use opt \<noteq> []" using assms(5) by simp
  note cf = compileFilter_ok [OF assms(4)]
  note steps = ParseProxyGroup_steps [OF assms(1-3) cf some, of proxyMap st]
  have dup: "ParseProxyGroup e config proxyMap st =
      (Inl (wrapName (Name opt) errDuplicateProvider), st)"
    if "providersMap st (Name opt) \<noteq> None"
  proof -
    from that assms(5,6) have "inlineProxies e proxyMap opt st =
        (Inl (wrapName (Name opt) errDuplicateProvider), st)"
      by (auto simp: inlineProxies_def)
    with steps show ?thesis by simp
  qed
  have reg: "providersMap (snd (ParseProxyGroup e config proxyMap st)) =
              (providersMap st)(Name opt \<mapsto> length (heap st)) \<and>
            deref (heap (snd (ParseProxyGroup e config proxyMap st))) (length (heap st)) =
              Some (CompatibleProvider (Name opt) ps hc)"
    if free: "providersMap st (Name opt) = None" and hc: "newHealthCheck ps opt = Inr hc"
      and ctor: "NewCompatibleProvider_err e (Name opt) ps hc = None"
  proof -
    have inl: "inlineProxies e proxyMap opt st =
         (Inr [length (heap st)],
          st\<lparr> heap := heap st @ [CompatibleProvider (Name opt) ps hc],
              providersMap := (providersMap st)(Name opt \<mapsto> length (heap st)) \<rparr>)"
      using assms(5,6) free hc ctor by (rule inlineProxies_ok)
    then have r: "inlineRegistered e config proxyMap st"
      using assms(1-3,5) cf by (simp add: inlineRegistered_def)
    obtain res st' where run: "ParseProxyGroup e config proxyMap st = (res, st')"
      by fastforce
    from ParseProxyGroup_registry [OF run] r assms(1) obtain ps' hc' where
      m: "providersMap st' = (providersMap st)(Name opt \<mapsto> length (heap st))"
      and at: "deref (heap st') (length (heap st)) = Some (CompatibleProvider (Name opt) ps' hc')"
      by auto
    obtain r2 st2 where use: "useProviders opt
        (if Filter opt = [] then None else Some (Regexp (Filter opt))) [length (heap st)]
        (st\<lparr> heap := heap st @ [CompatibleProvider (Name opt) ps hc],
            providersMap := (providersMap st)(Name opt \<mapsto> length (heap st)) \<rparr>) = (r2, st2)"
      by fastforce
    have "st' = st2" using run steps inl use by (cases r2) auto
    moreover have "grown (heap st @ [CompatibleProvider (Name opt) ps hc]) (heap st2)"
      using use
      by (auto simp: useProviders_def grown_refl split: if_splits sum.splits prod.splits
          dest: getProviders_grown)
    moreover have "asProxySetProvider (heap st @ [CompatibleProvider (Name opt) ps hc])
        (length (heap st)) = None"
      by (simp add: asProxySetProvider_None)
    ultimately have "heap st' ! length (heap st) =
        (heap st @ [CompatibleProvider (Name opt) ps hc]) ! length (heap st)"
      by (simp add: grown_keeps)
    then have "heap st' ! length (heap st) = CompatibleProvider (Name opt) ps hc" by simp
    with at have "deref (heap st') (length (heap st)) =
        Some (CompatibleProvider (Name opt) ps hc)"
      by (simp add: deref_def split: if_splits)
    with m run show ?thesis by simp
  qed
  from dup reg show ?thesis by blast
qed

theorem duplicate_name_guard_witness:
  "providersMap (snd (ParseProxyGroup sampleEnv (sampleOption ''g'' ''select'' [''A'', ''B''] [])
       sampleProxies sampleState)) = (providersMap sampleState)(''g'' \<mapsto> 2) \<and>
   ParseProxyGroup sampleEnv (sampleOption ''g'' ''select'' [''B''] []) sampleProxies
       (snd (ParseProxyGroup sampleEnv (sampleOption ''g'' ''select'' [''A'', ''B''] [])
          sampleProxies sampleState)) =
     (Inl (wrapName ''g'' errDuplicateProvider),
      snd (ParseProxyGroup sampleEnv (sampleOption ''g'' ''select'' [''A'', ''B''] [])
          sampleProxies sampleState))"
proof -
  let ?one = "sampleOption ''g'' ''select'' [''A'', ''B''] []"
  let ?two = "sampleOption ''g'' ''select'' [''B''] []"
  let ?st1 = "snd (ParseProxyGroup sampleEnv ?one sampleProxies sampleState)"
  have d1: "Decode sampleEnv ?one initOption = Some ?one"
    and t1: "Type ?one \<noteq> []" "Name ?one \<noteq> []"
    and f1: "Filter ?one \<noteq> [] \<longrightarrow> regexp_Compile sampleEnv (Filter ?one) = None"
    and p1: "Proxies ?one \<noteq> []"
    and g1: "getProxies sampleProxies (Proxies ?one) = Inr [ProxyHandle 0, ProxyHandle 1]"
    by (simp_all add: sample_defs getProxies_def)
  have v1: "providersMap sampleState (Name ?one) = None \<and>
      newHealthCheck [ProxyHandle 0, ProxyHandle 1] ?one =
        Inr (NewHealthCheck [ProxyHandle 0, ProxyHandle 1] [] 0 True) \<and>
      NewCompatibleProvider_err sampleEnv (Name ?one) [ProxyHandle 0, ProxyHandle 1]
        (NewHealthCheck [ProxyHandle 0, ProxyHandle 1] [] 0 True) = None"
    by (simp add: sample_defs newHealthCheck_def)
  have n: "Name ?one = ''g''" "Name ?two = ''g''" "length (heap sampleState) = 2"
    by (simp_all add: sample_defs)
  have a: "providersMap ?st1 = (providersMap sampleState)(''g'' \<mapsto> 2)"
    using duplicate_name_guard [OF d1 t1 f1 p1 g1, THEN conjunct2, rule_format, OF v1,
        THEN conjunct1]
    unfolding n .
  have d2: "Decode sampleEnv ?two initOption = Some ?two"
    and t2: "Type ?two \<noteq> []" "Name ?two \<noteq> []"
    and f2: "Filter ?two \<noteq> [] \<longrightarrow> regexp_Compile sampleEnv (Filter ?two) = None"
    and p2: "Proxies ?two \<noteq> []"
    and g2: "getProxies sampleProxies (Proxies ?two) = Inr [ProxyHandle 1]"
    by (simp_all add: sample_defs getProxies_def)
  have v2: "providersMap ?st1 (Name ?two) \<noteq> None"
    unfolding n a by simp
  have b: "ParseProxyGroup sampleEnv ?two sampleProxies ?st1 =
      (Inl (wrapName ''g'' errDuplicateProvider), ?st1)"
    using duplicate_name_guard [OF d2 t2 f2 p2 g2, THEN conjunct1, rule_format, OF v2]
    unfolding n .
  show ?thesis using a b by (rule conjI)
qed

theorem duplicate_name_guard_counterexample:
  "Proxies (sampleOption ''P'' ''select'' [''missing''] []) = [''missing''] \<and>
   providersMap sampleState (Name (sampleOption ''P'' ''select'' [''missing''] [])) = Some 0 \<and>
   fst (ParseProxyGroup sampleEnv (sampleOption ''P'' ''select'' [''missing''] [])
        sampleProxies sampleState) = Inl (wrapName ''P'' (errNotFound ''missing'')) \<and>
   \<not> errors_Is (wrapName ''P'' (errNotFound ''missing'')) errDuplicateProvider"
  by (simp add: run_defs sample_defs err_defs)

text \<open>
  C7, as the code has it. A name of \<^verbatim>\<open>use\<close> that does not resolve to a dynamic pool makes
  \<^verbatim>\<open>getProviders\<close> fail, and makes \<^verbatim>\<open>ParseProxyGroup\<close> fail for every configuration that
  decodes. When the name is in the registry, its provider is no dynamic pool, and the name
  is the first to fail (every earlier name resolves to a dynamic pool and, if there is an
  earlier name, the policy can be built), the error is the one of the incompatible
  reference, naming it; \<^verbatim>\<open>ParseProxyGroup\<close> then returns that error prefixed with the
  group's name, provided its earlier steps pass. Conversely, when every name resolves to a
  dynamic pool and the policy can be built, each reference yields a derived provider named
  \<^verbatim>\<open><source>-in-<group>\<close>, whose parent is the source and which is among the dependents of
  the source; and whenever \<^verbatim>\<open>ParseProxyGroup\<close> succeeds, the adapter holds such a derived
  provider for each reference.
\<close>

theorem use_reference_needs_dynamic_pool:
  "(Use opt = pre @ name # post \<and> (\<forall>n\<in>set pre. resolvesToPool mapping h n) \<and>
    (pre \<noteq> [] \<longrightarrow> (\<exists>hc. newHealthCheck [] opt = Inr hc)) \<and>
    mapping name = Some p \<and> asProxySetProvider h p = None \<longrightarrow>
      fst (getProviders mapping opt rx h) = Inl (errCantContain name)) \<and>
   ((\<exists>n\<in>set (Use opt). \<not> resolvesToPool mapping h n) \<longrightarrow>
      (\<exists>err. fst (getProviders mapping opt rx h) = Inl err)) \<and>
   (Decode e config initOption = Some opt \<and> Type opt \<noteq> [] \<and> Name opt \<noteq> [] \<and>
    compileFilter e opt = Inr rx \<and> inlineProxies e proxyMap opt st = (Inr providers, mid) \<and>
    Use opt = pre @ name # post \<and>
    (\<forall>n\<in>set pre. resolvesToPool (providersMap mid) (heap mid) n) \<and>
    (pre \<noteq> [] \<longrightarrow> (\<exists>hc. newHealthCheck [] opt = Inr hc)) \<and>
    providersMap mid name = Some p \<and> asProxySetProvider (heap mid) p = None \<longrightarrow>
      fst (ParseProxyGroup e config proxyMap st) =
        Inl (wrapName (Name opt) (errCantContain name))) \<and>
   ((\<forall>n\<in>set (Use opt). resolvesToPool mapping h n) \<and> newHealthCheck [] opt = Inr hc \<longrightarrow>
      (\<exists>h'. getProviders mapping opt rx h =
               (Inr [length h..<length h + length (Use opt)], h') \<and>
            (\<forall>i<length (Use opt).
               h' ! (length h + i) =
                 ProxyFilterProvider (Use opt ! i @ ''-in-'' @ Name opt)
                   (the (mapping (Use opt ! i))) hc rx \<and>
               (\<exists>n u. asProxySetProvider h' (the (mapping (Use opt ! i))) = Some (n, u) \<and>
                      length h + i \<in> set u)))) \<and>
   (Decode e config initOption = Some opt \<and>
    (\<exists>n\<in>set (Use opt). \<not> resolvesToPool (providersMap st) (heap st) n) \<longrightarrow>
      (\<exists>err st2. ParseProxyGroup e config proxyMap st = (Inl err, st2))) \<and>
   (Decode e config initOption = Some opt \<and>
    ParseProxyGroup e config proxyMap st = (Inr a, st') \<longrightarrow>
      (\<forall>i<length (Use opt).
         (\<exists>hc' rx'.
            deref (heap st') (length (heap st) + (if Proxies opt = [] then 0 else 1) + i) =
              Some (ProxyFilterProvider (Use opt ! i @ ''-in-'' @ Name opt)
                      (the (providersMap st' (Use opt ! i))) hc' rx')) \<and>
         length (heap st) + (if Proxies opt = [] then 0 else 1) + i \<in>
           set (adapter_providers a) \<and>
         (\<exists>n u. asProxySetProvider (heap st') (the (providersMap st' (Use opt ! i))) =
                  Some (n, u) \<and>
                length (heap st) + (if Proxies opt = [] then 0 else 1) + i \<in> set u)))"
proof -
  have first: "fst (getProviders m opt rx h) = Inl (errCantContain name)"
    if use: "Use opt = pre @ name # post"
      and pools: "\<forall>n\<in>set pre. resolvesToPool m h n"
      and hc: "pre \<noteq> [] \<longrightarrow> (\<exists>hc. newHealthCheck [] opt = Inr hc)"
      and at: "m name = Some p" and no: "asProxySetProvider h p = None"
    for m h
  proof (cases "pre = []")
    case True
    with use at no show ?thesis by (simp add: getProviders_def)
  next
    case False
    with hc obtain hc0 where hc0: "newHealthCheck [] opt = Inr hc0" by blast
    from getProviders_loop_prefix [OF pools hc0, of rx "name # post" "[]"]
    obtain h1 where eq: "getProviders_loop m opt rx (pre @ name # post) [] h =
        getProviders_loop m opt rx (name # post) ([] @ [length h..<length h + length pre]) h1"
      and g: "grown h h1"
      by blast
    from g no have "asProxySetProvider h1 p = None" by (rule grown_no_pool)
    with at have "getProviders_loop m opt rx (name # post)
        ([] @ [length h..<length h + length pre]) h1 = (Inl (errCantContain name), h1)"
      by (rule getProviders_loop_no_pool)
    with eq use show ?thesis by (simp add: getProviders_def)
  qed
  have fails: "\<exists>err. fst (getProviders mapping opt rx h) = Inl err"
    if "\<exists>n\<in>set (Use opt). \<not> resolvesToPool mapping h n"
  proof (cases "fst (getProviders mapping opt rx h)")
    case (Inl err)
    then show ?thesis by blast
  next
    case (Inr list)
    then have "getProviders_loop mapping opt rx (Use opt) [] h =
        (Inr list, snd (getProviders mapping opt rx h))"
      by (simp add: getProviders_def prod_eq_iff)
    from getProviders_loop_Inr [OF this] that show ?thesis by blast
  qed
  have whole: "fst (ParseProxyGroup e config proxyMap st) =
        Inl (wrapName (Name opt) (errCantContain name))"
    if dec: "Decode e config initOption = Some opt" and ty: "Type opt \<noteq> []"
      and nm: "Name opt \<noteq> []" and cf: "compileFilter e opt = Inr rx"
      and inl: "inlineProxies e proxyMap opt st = (Inr providers, mid)"
      and use: "Use opt = pre @ name # post"
      and pools: "\<forall>n\<in>set pre. resolvesToPool (providersMap mid) (heap mid) n"
      and hc: "pre \<noteq> [] \<longrightarrow> (\<exists>hc. newHealthCheck [] opt = Inr hc)"
      and at: "providersMap mid name = Some p" and no: "asProxySetProvider (heap mid) p = None"
  proof -
    have ne: "Use opt \<noteq> []" using use by simp
    then have some: "Proxies opt \<noteq> [] \<or> Use opt \<noteq> []" by simp
    have "fst (getProviders (providersMap mid) opt rx (heap mid)) = Inl (errCantContain name)"
      using use pools hc at no by (rule first)
    then have "fst (useProviders opt rx providers mid) =
        Inl (wrapName (Name opt) (errCantContain name))"
      using ne by (auto simp: useProviders_def split: prod.splits sum.splits)
    then show ?thesis
      using inl by (auto simp: ParseProxyGroup_steps [OF dec ty nm cf some]
          split: prod.splits sum.splits)
  qed
  have ok: "\<exists>h'. getProviders mapping opt rx h =
               (Inr [length h..<length h + length (Use opt)], h') \<and>
            (\<forall>i<length (Use opt).
               h' ! (length h + i) =
                 ProxyFilterProvider (Use opt ! i @ ''-in-'' @ Name opt)
                   (the (mapping (Use opt ! i))) hc rx \<and>
               (\<exists>n u. asProxySetProvider h' (the (mapping (Use opt ! i))) = Some (n, u) \<and>
                      length h + i \<in> set u))"
    if "\<forall>n\<in>set (Use opt). resolvesToPool mapping h n" "newHealthCheck [] opt = Inr hc"
    using getProviders_ok [OF that, of rx] by blast
  show ?thesis
  proof (intro conjI impI, goal_cases)
    case 1
    then show ?case by (elim conjE) (rule first)
  next
    case 2
    then show ?case by (rule fails)
  next
    case 3
    then show ?case by (elim conjE) (rule whole)
  next
    case 4
    then show ?case by (elim conjE) (rule ok)
  next
    case 5
    then show ?case by (elim conjE bexE) (rule ParseProxyGroup_unresolved_fails)
  next
    case 6
    then have dec: "Decode e config initOption = Some opt"
      and run: "ParseProxyGroup e config proxyMap st = (Inr a, st')"
      by simp_all
    define b where "b = length (heap st) + (if Proxies opt = [] then 0 else 1)"
    from ParseProxyGroup_result [OF run dec]
    obtain rx0 where
      P0: "Proxies opt = [] \<longrightarrow>
        providersMap st' = providersMap st \<and>
        adapter_providers a = [length (heap st)..<length (heap st) + length (Use opt)]"
      and P1: "Proxies opt \<noteq> [] \<longrightarrow>
        providersMap st (Name opt) = None \<and>
        providersMap st' = (providersMap st)(Name opt \<mapsto> length (heap st)) \<and>
        (\<exists>ps hc. getProxies proxyMap (Proxies opt) = Inr ps \<and> newHealthCheck ps opt = Inr hc \<and>
           NewCompatibleProvider_err e (Name opt) ps hc = None \<and>
           deref (heap st') (length (heap st)) = Some (CompatibleProvider (Name opt) ps hc)) \<and>
        adapter_providers a =
          (if Type opt = ''fallback''
           then [Suc (length (heap st))..<Suc (length (heap st)) + length (Use opt)] @
                [length (heap st)]
           else length (heap st) #
                [Suc (length (heap st))..<Suc (length (heap st)) + length (Use opt)])"
      and P2: "Use opt \<noteq> [] \<longrightarrow>
        (\<exists>hc. newHealthCheck [] opt = Inr hc \<and>
           (\<forall>i<length (Use opt).
              deref (heap st') (length (heap st) + (if Proxies opt = [] then 0 else 1) + i) =
                Some (ProxyFilterProvider (Use opt ! i @ ''-in-'' @ Name opt)
                        (the (providersMap st' (Use opt ! i))) hc rx0) \<and>
              (\<exists>n u. asProxySetProvider (heap st') (the (providersMap st' (Use opt ! i))) =
                       Some (n, u) \<and>
                     length (heap st) + (if Proxies opt = [] then 0 else 1) + i \<in> set u)))"
      by blast
    have "(\<exists>hc' rx'.
            deref (heap st') (b + i) =
              Some (ProxyFilterProvider (Use opt ! i @ ''-in-'' @ Name opt)
                      (the (providersMap st' (Use opt ! i))) hc' rx')) \<and>
         b + i \<in> set (adapter_providers a) \<and>
         (\<exists>n u. asProxySetProvider (heap st') (the (providersMap st' (Use opt ! i))) =
                  Some (n, u) \<and> b + i \<in> set u)"
      if i: "i < length (Use opt)" for i
    proof -
      from i have "Use opt \<noteq> []" by auto
      with P2 obtain hc0 where
        at: "\<forall>i<length (Use opt).
              deref (heap st') (b + i) =
                Some (ProxyFilterProvider (Use opt ! i @ ''-in-'' @ Name opt)
                        (the (providersMap st' (Use opt ! i))) hc0 rx0) \<and>
              (\<exists>n u. asProxySetProvider (heap st') (the (providersMap st' (Use opt ! i))) =
                       Some (n, u) \<and> b + i \<in> set u)"
        unfolding b_def by blast
      have mem: "b + i \<in> set (adapter_providers a)"
      proof (cases "Proxies opt = []")
        case True
        with P0 i show ?thesis by (simp add: b_def)
      next
        case False
        with i have "b + i \<in>
            set [Suc (length (heap st))..<Suc (length (heap st)) + length (Use opt)]"
          by (simp add: b_def del: upt_Suc)
        moreover from False P1
        have "set [Suc (length (heap st))..<Suc (length (heap st)) + length (Use opt)] \<subseteq>
            set (adapter_providers a)"
          by (auto simp del: upt_Suc split: if_splits)
        ultimately show ?thesis by blast
      qed
      from at i mem show ?thesis by blast
    qed
    then show ?case unfolding b_def by blast
  qed
qed

theorem use_reference_needs_dynamic_pool_witness:
  "fst (getProviders (providersMap sampleState) (sampleOption ''g'' ''select'' [] [''P'', ''G''])
        None (heap sampleState)) = Inl (errCantContain ''G'') \<and>
   (\<exists>err. fst (getProviders (providersMap sampleState)
        (sampleOption ''g'' ''select'' [] [''P'', ''G'']) None (heap sampleState)) = Inl err) \<and>
   fst (ParseProxyGroup sampleEnv (sampleOption ''g'' ''select'' [] [''P'', ''G''])
        sampleProxies sampleState) = Inl (wrapName ''g'' (errCantContain ''G'')) \<and>
   (\<exists>h'. getProviders (providersMap sampleState) (sampleOption ''g'' ''select'' [] [''P'', ''P''])
             None (heap sampleState) = (Inr [2, 3], h') \<and>
         h' ! 2 = ProxyFilterProvider ''P-in-g'' 0 (NewHealthCheck [] [] 0 True) None \<and>
         h' ! 3 = ProxyFilterProvider ''P-in-g'' 0 (NewHealthCheck [] [] 0 True) None \<and>
         (\<exists>n u. asProxySetProvider h' 0 = Some (n, u) \<and> 2 \<in> set u \<and> 3 \<in> set u)) \<and>
   (\<exists>err st2. ParseProxyGroup sampleEnv (sampleOption ''g'' ''select'' [] [''P'', ''G''])
        sampleProxies sampleState = (Inl err, st2)) \<and>
   fst (ParseProxyGroup sampleEnv (sampleOption ''g'' ''select'' [] [''P'', ''P''])
        sampleProxies sampleState) =
     Inr (Selector (sampleOption ''g'' ''select'' [] [''P'', ''P'']) [2, 3]) \<and>
   (\<exists>hc' rx'.
      deref (heap (snd (ParseProxyGroup sampleEnv
          (sampleOption ''g'' ''select'' [] [''P'', ''P'']) sampleProxies sampleState))) 2 =
        Some (ProxyFilterProvider ''P-in-g'' 0 hc' rx')) \<and>
   (\<exists>hc' rx'.
      deref (heap (snd (ParseProxyGroup sampleEnv
          (sampleOption ''g'' ''select'' [] [''P'', ''P'']) sampleProxies sampleState))) 3 =
        Some (ProxyFilterProvider ''P-in-g'' 0 hc' rx')) \<and>
   (\<exists>n u. asProxySetProvider (heap (snd (ParseProxyGroup sampleEnv
          (sampleOption ''g'' ''select'' [] [''P'', ''P'']) sampleProxies sampleState))) 0 =
            Some (n, u) \<and> 2 \<in> set u \<and> 3 \<in> set u)"
proof -
  let ?bad = "sampleOption ''g'' ''select'' [] [''P'', ''G'']"
  let ?good = "sampleOption ''g'' ''select'' [] [''P'', ''P'']"
  note bad = use_reference_needs_dynamic_pool
    [where opt = ?bad and pre = "[''P'']" and name = "''G''" and post = "[]"
       and mapping = "providersMap sampleState" and h = "heap sampleState" and p = 1
       and rx = None and e = sampleEnv and config = ?bad and proxyMap = sampleProxies
       and st = sampleState and providers = "[]" and mid = sampleState]
  let ?st' = "snd (ParseProxyGroup sampleEnv ?good sampleProxies sampleState)"
  note good = use_reference_needs_dynamic_pool
    [where opt = ?good and mapping = "providersMap sampleState" and h = "heap sampleState"
       and rx = None and hc = "NewHealthCheck [] [] 0 True" and e = sampleEnv
       and config = ?good and proxyMap = sampleProxies and st = sampleState
       and a = "Selector ?good [2, 3]" and st' = ?st']
  have run: "ParseProxyGroup sampleEnv ?good sampleProxies sampleState =
      (Inr (Selector ?good [2, 3]), ?st')"
    by (simp add: run_defs sample_defs)
  have h5: "Decode sampleEnv ?bad initOption = Some ?bad \<and>
      (\<exists>n\<in>set (Use ?bad). \<not> resolvesToPool (providersMap sampleState) (heap sampleState) n)"
    by (simp add: sample_defs resolvesToPool_def asProxySetProvider_def deref_def)
  have h6: "Decode sampleEnv ?good initOption = Some ?good \<and>
      ParseProxyGroup sampleEnv ?good sampleProxies sampleState =
        (Inr (Selector ?good [2, 3]), ?st')"
    using run by (simp add: sample_defs)
  have h1: "Use ?bad = [''P''] @ ''G'' # [] \<and>
      (\<forall>n\<in>set [''P'']. resolvesToPool (providersMap sampleState) (heap sampleState) n) \<and>
      ([''P''] \<noteq> [] \<longrightarrow> (\<exists>hc. newHealthCheck [] ?bad = Inr hc)) \<and>
      providersMap sampleState ''G'' = Some 1 \<and>
      asProxySetProvider (heap sampleState) 1 = None"
    by (simp add: sample_defs resolvesToPool_def asProxySetProvider_def deref_def
        newHealthCheck_def)
  have h2: "\<exists>n\<in>set (Use ?bad). \<not> resolvesToPool (providersMap sampleState) (heap sampleState) n"
    by (simp add: sample_defs resolvesToPool_def asProxySetProvider_def deref_def)
  have h3: "Decode sampleEnv ?bad initOption = Some ?bad \<and> Type ?bad \<noteq> [] \<and>
      Name ?bad \<noteq> [] \<and> compileFilter sampleEnv ?bad = Inr None \<and>
      inlineProxies sampleEnv sampleProxies ?bad sampleState = (Inr [], sampleState) \<and>
      Use ?bad = [''P''] @ ''G'' # [] \<and>
      (\<forall>n\<in>set [''P'']. resolvesToPool (providersMap sampleState) (heap sampleState) n) \<and>
      ([''P''] \<noteq> [] \<longrightarrow> (\<exists>hc. newHealthCheck [] ?bad = Inr hc)) \<and>
      providersMap sampleState ''G'' = Some 1 \<and>
      asProxySetProvider (heap sampleState) 1 = None"
    by (simp add: sample_defs resolvesToPool_def asProxySetProvider_def deref_def
        newHealthCheck_def compileFilter_def inlineProxies_def)
  have h4: "(\<forall>n\<in>set (Use ?good). resolvesToPool (providersMap sampleState) (heap sampleState) n) \<and>
      newHealthCheck [] ?good = Inr (NewHealthCheck [] [] 0 True)"
    by (simp add: sample_defs resolvesToPool_def asProxySetProvider_def deref_def
        newHealthCheck_def)
  have n: "Name ?bad = ''g''" "length (heap sampleState) = 2" "length (Use ?good) = 2"
    by (simp_all add: sample_defs)
  have u: "the (providersMap sampleState (Use ?good ! i)) = 0 \<and>
    Use ?good ! i @ ''-in-'' @ Name ?good = ''P-in-g''" if "i < 2" for i
  proof -
    from that have "i = 0 \<or> i = 1" by auto
    then show ?thesis by (auto simp: sample_defs)
  qed
  have a: "fst (getProviders (providersMap sampleState) ?bad None (heap sampleState)) =
      Inl (errCantContain ''G'')"
    using bad [THEN conjunct1, rule_format, OF h1] .
  have b: "\<exists>err. fst (getProviders (providersMap sampleState) ?bad None (heap sampleState)) =
      Inl err"
    using bad [THEN conjunct2, THEN conjunct1, rule_format, OF h2] .
  have c: "fst (ParseProxyGroup sampleEnv ?bad sampleProxies sampleState) =
      Inl (wrapName ''g'' (errCantContain ''G''))"
    using bad [THEN conjunct2, THEN conjunct2, THEN conjunct1, rule_format, OF h3]
    unfolding n .
  from good [THEN conjunct2, THEN conjunct2, THEN conjunct2, THEN conjunct1, rule_format,
      OF h4]
  obtain h' where
    r: "getProviders (providersMap sampleState) ?good None (heap sampleState) =
          (Inr [length (heap sampleState)..<length (heap sampleState) + length (Use ?good)], h')"
    and each: "\<forall>i<length (Use ?good).
       h' ! (length (heap sampleState) + i) =
         ProxyFilterProvider (Use ?good ! i @ ''-in-'' @ Name ?good)
           (the (providersMap sampleState (Use ?good ! i))) (NewHealthCheck [] [] 0 True) None \<and>
       (\<exists>n u. asProxySetProvider h' (the (providersMap sampleState (Use ?good ! i))) =
                Some (n, u) \<and> length (heap sampleState) + i \<in> set u)"
    by (elim exE conjE) (rule that; assumption)
  have refs: "[length (heap sampleState)..<length (heap sampleState) + length (Use ?good)] =
      [2, 3]"
    unfolding n by (simp add: upt_rec)
  have ei: "h' ! (2 + i) =
                  ProxyFilterProvider ''P-in-g'' 0 (NewHealthCheck [] [] 0 True) None \<and>
               (\<exists>n u. asProxySetProvider h' 0 = Some (n, u) \<and> 2 + i \<in> set u)"
    if "i < 2" for i
  proof -
    from that have "i < length (Use ?good)" by (simp only: n)
    from each [rule_format, OF this] show ?thesis
      unfolding n(2) u [OF that, THEN conjunct1] u [OF that, THEN conjunct2] .
  qed
  have e0: "h' ! 2 =
        ProxyFilterProvider ''P-in-g'' 0 (NewHealthCheck [] [] 0 True) None \<and>
      (\<exists>n u. asProxySetProvider h' 0 = Some (n, u) \<and> 2 \<in> set u)"
    using ei [of 0] by simp
  have e1: "h' ! 3 =
        ProxyFilterProvider ''P-in-g'' 0 (NewHealthCheck [] [] 0 True) None \<and>
      (\<exists>n u. asProxySetProvider h' 0 = Some (n, u) \<and> 3 \<in> set u)"
    using ei [of 1] by simp
  from e0 e1 have "h' ! 2 = ProxyFilterProvider ''P-in-g'' 0 (NewHealthCheck [] [] 0 True) None \<and>
      h' ! 3 = ProxyFilterProvider ''P-in-g'' 0 (NewHealthCheck [] [] 0 True) None \<and>
      (\<exists>n u. asProxySetProvider h' 0 = Some (n, u) \<and> 2 \<in> set u \<and> 3 \<in> set u)"
    by auto
  with r refs have d: "\<exists>h'. getProviders (providersMap sampleState) ?good None
        (heap sampleState) = (Inr [2, 3], h') \<and>
      h' ! 2 = ProxyFilterProvider ''P-in-g'' 0 (NewHealthCheck [] [] 0 True) None \<and>
      h' ! 3 = ProxyFilterProvider ''P-in-g'' 0 (NewHealthCheck [] [] 0 True) None \<and>
      (\<exists>n u. asProxySetProvider h' 0 = Some (n, u) \<and> 2 \<in> set u \<and> 3 \<in> set u)"
    by auto
  have f: "\<exists>err st2. ParseProxyGroup sampleEnv ?bad sampleProxies sampleState = (Inl err, st2)"
    using bad [THEN conjunct2, THEN conjunct2, THEN conjunct2, THEN conjunct2, THEN conjunct1,
        rule_format, OF h5] .
  have g: "fst (ParseProxyGroup sampleEnv ?good sampleProxies sampleState) =
      Inr (Selector ?good [2, 3])"
    using run by (simp add: prod_eq_iff)
  have m: "Proxies ?good = []" "Name ?good = ''g''"
    "adapter_providers (Selector ?good [2, 3] :: unit adapter) = [2, 3]"
    by (simp_all add: sample_defs)
  have m': "the (providersMap ?st' (Use ?good ! i)) = 0" if "i < 2" for i
  proof -
    from that have "i = 0 \<or> i = 1" by auto
    then show ?thesis by (auto simp: run_defs sample_defs)
  qed
  note whole = good [THEN conjunct2, THEN conjunct2, THEN conjunct2, THEN conjunct2,
      THEN conjunct2, rule_format, OF h6]
  have j: "(\<exists>hc' rx'. deref (heap ?st') (2 + i) =
              Some (ProxyFilterProvider ''P-in-g'' 0 hc' rx')) \<and>
      2 + i \<in> set [2, 3] \<and>
      (\<exists>n u. asProxySetProvider (heap ?st') 0 = Some (n, u) \<and> 2 + i \<in> set u)"
    if "i < 2" for i
  proof -
    from that have il: "i < length (Use ?good)" by (simp only: n)
    have u2: "Use ?good ! i @ ''-in-'' @ ''g'' = ''P-in-g''"
      using u [OF that, THEN conjunct2] unfolding m .
    from whole [OF il] show ?thesis
      by (simp only: n(2) m m' [OF that] u2 simp_thms if_True add_0_right)
  qed
  note j0 = j [of 0] and j1 = j [of 1]
  have k0: "\<exists>hc' rx'. deref (heap ?st') 2 = Some (ProxyFilterProvider ''P-in-g'' 0 hc' rx')"
    using j0 by simp
  have k1: "\<exists>hc' rx'. deref (heap ?st') 3 = Some (ProxyFilterProvider ''P-in-g'' 0 hc' rx')"
    using j1 by simp
  have k2: "\<exists>n u. asProxySetProvider (heap ?st') 0 = Some (n, u) \<and> 2 \<in> set u \<and> 3 \<in> set u"
    using j0 j1 by auto
  show ?thesis by (intro conjI a b c d f g k0 k1 k2)
qed

theorem use_reference_earlier_failure_counterexample:
  "Use (sampleOption ''g'' ''select'' [] [''missing'', ''G'']) = [''missing'', ''G''] \<and>
   providersMap sampleState ''G'' = Some 1 \<and>
   asProxySetProvider (heap sampleState) 1 = None \<and>
   fst (ParseProxyGroup sampleEnv (sampleOption ''g'' ''select'' [] [''missing'', ''G''])
        sampleProxies sampleState) = Inl (wrapName ''g'' (errNotFound ''missing'')) \<and>
   \<not> errors_Is (wrapName ''g'' (errNotFound ''missing'')) (errCantContain ''G'')"
  by (simp add: run_defs sample_defs err_defs)

end
